theory Spec2Isabelle
  imports Main
begin

section \<open>Shallow embedding of SqliteFtpBackup\<close>

text \<open>
  The development follows the three translation units of the repository:
  the snapshot engine (\<open>SqliteHelper\<close>), the transport client (\<open>FtpUploader\<close>) and the
  orchestrator (\<open>BackupManager\<close> with \<open>TempFileRemover\<close>). Library calls (sqlite3, libcurl,
  the file system, the clock) are answered by an environment record of oracles; every
  observable effect (log lines, sleeps, handles, transfers, removals, files) is written
  into an explicit world record that each operation takes and returns.
\<close>

subsection \<open>Strings and decimal printing\<close>

text \<open>The backslash character, which has no literal form inside a HOL string.\<close>

definition bslash :: char where
  "bslash = CHR 0x5C"

definition slash :: char where
  "slash = CHR ''/''"

text \<open>\<open>std::to_string\<close> and \<open>operator<<\<close> on an \<open>int\<close>: decimal digits, a minus sign first
  for a negative value.\<close>

fun digits :: "nat \<Rightarrow> string" where
  "digits n = (if n < 10 then [''0123456789'' ! n]
               else digits (n div 10) @ [''0123456789'' ! (n mod 10)])"

declare digits.simps [simp del]

definition to_string :: "int \<Rightarrow> string" where
  "to_string i = (if i < 0 then CHR ''-'' # digits (nat (- i)) else digits (nat i))"

subsection \<open>Exceptions\<close>

text \<open>
  \<open>runtime_error\<close>, \<open>logic_error\<close> (with \<open>invalid_argument\<close> and \<open>out_of_range\<close>) and
  \<open>filesystem_error\<close> derive from \<open>std::exception\<close> and carry their \<open>what()\<close> text; \<open>foreign_exception\<close> stands for any thrown value that does not.
\<close>

datatype exn = runtime_error string | logic_error string | filesystem_error string
  | foreign_exception

fun what :: "exn \<Rightarrow> string option" where
  "what (runtime_error msg) = Some msg"
| "what (logic_error msg) = Some msg"
| "what (filesystem_error msg) = Some msg"
| "what foreign_exception = None"

subsection \<open>Logger (include/Logger.h)\<close>

datatype Level = DEBUG | INFO | WARNING | ERROR

fun level_rank :: "Level \<Rightarrow> nat" where
  "level_rank DEBUG = 0"
| "level_rank INFO = 1"
| "level_rank WARNING = 2"
| "level_rank ERROR = 3"

subsection \<open>Progress callbacks and transfer options\<close>

text \<open>
  The four \<open>curl_off_t\<close> counters handed to the progress bridge:
  \<open>(dltotal, dlnow, ultotal, ulnow)\<close>.
\<close>

type_synonym xferinfo = "int \<times> int \<times> int \<times> int"

text \<open>
  A \<open>ProgressCallback\<close> is a \<open>std::function\<close>: called on the counters it either returns
  or throws, and it may ask the logger to write lines on the way. An empty
  \<open>std::function\<close> (or a null pointer to one) is \<open>None\<close>.
\<close>

type_synonym ProgressCallback = "xferinfo \<Rightarrow> (exn + unit) \<times> (Level \<times> string) list"

text \<open>What libcurl is to produce during one \<open>curl_easy_perform\<close>, in order: calls of the
  transfer-info function and chunks of server response handed to the write function.\<close>

datatype curl_event = Progress xferinfo | ServerData string

text \<open>The options set on one easy handle by \<open>uploadFile\<close>; \<open>None\<close> is an option left unset.\<close>

record easy_opts =
  opt_url :: string
  opt_username :: "string option"
  opt_password :: "string option"
  opt_use_ssl :: int
  opt_ssl_verifypeer :: int
  opt_ssl_verifyhost :: int
  opt_upload :: int
  opt_create_missing_dirs :: int
  opt_connecttimeout :: int
  opt_response_timeout :: int
  opt_verbose :: "int option"
  opt_xferinfo :: bool
  opt_noprogress :: int
  opt_infilesize_large :: "int option"

definition CURLUSESSL_ALL :: int where "CURLUSESSL_ALL = 3"
definition CURLFTP_CREATE_DIR_RETRY :: int where "CURLFTP_CREATE_DIR_RETRY = 2"
definition CURLE_OK :: int where "CURLE_OK = 0"
definition CURLE_ABORTED_BY_CALLBACK :: int where "CURLE_ABORTED_BY_CALLBACK = 42"

definition SQLITE_OK :: int where "SQLITE_OK = 0"
definition SQLITE_BUSY :: int where "SQLITE_BUSY = 5"
definition SQLITE_LOCKED :: int where "SQLITE_LOCKED = 6"
definition SQLITE_DONE :: int where "SQLITE_DONE = 101"

subsection \<open>The world and the environment\<close>

text \<open>
  \<open>files\<close> are the paths that exist on disk; \<open>minLevel\<close> and \<open>entries\<close> are the singleton
  logger (an entry is the severity and the message, without the time stamp); \<open>slept\<close> are
  the sleeps in milliseconds, in order; \<open>easy_inits\<close> counts the handles \<open>curl_easy_init\<close> has created;
  \<open>performs\<close> are the calls of \<open>curl_easy_perform\<close>, each with the attempt number, the
  options of the handle and the status it returned; \<open>step_calls\<close> are the page counts passed to
  \<open>sqlite3_backup_step\<close>; \<open>removes\<close> are the paths passed to \<open>std::filesystem::remove\<close>.
\<close>

record world =
  files :: "string set"
  minLevel :: Level
  entries :: "(Level \<times> string) list"
  slept :: "int list"
  easy_inits :: nat
  performs :: "(int \<times> easy_opts \<times> int) list"
  step_calls :: "int list"
  removes :: "string list"

text \<open>Where \<open>insertRandomRows\<close> can fail: parsing the seed variable, beginning the
  transaction, preparing the statement, binding or stepping row \<open>i\<close>, committing.\<close>

datatype insert_failure = SeedInvalid string | BeginFailed | PrepareFailed
  | BindFailed int | StepFailed int | CommitFailed

text \<open>
  The answers of the libraries. Those of the transport client are indexed by the attempt
  number, those of \<open>sqlite3_backup_step\<close> by the number of earlier calls.
  \<^item> \<open>fopen_ok k\<close>, \<open>easy_init_ok k\<close>: \<open>fopen\<close> and \<open>curl_easy_init\<close> succeed on attempt \<open>k\<close>;
    \<open>file_size k\<close>: what \<open>std::filesystem::file_size\<close> gives then, \<open>None\<close> when it throws.
  \<^item> \<open>curl_events k\<close>: the callbacks libcurl has to make during the transfer of attempt
    \<open>k\<close>; \<open>net_result k\<close>: the status of that transfer unless a callback aborts it;
    \<open>curl_easy_strerror\<close>: the text of a status; \<open>global_init_ok\<close>: \<open>curl_global_init\<close>
    succeeds.
  \<^item> \<open>create_logs_dir\<close>, \<open>db_open\<close>, \<open>create_table_exec\<close>, \<open>dest_open\<close>, \<open>backup_init\<close>:
    \<open>None\<close> when the call succeeds, the error text otherwise. \<open>db_stamp\<close> and \<open>dump_stamp\<close>:
    the local time as \<open>%Y-%m-%d_%H-%M-%S\<close> when the database and the dump file are named.
  \<^item> \<open>seed_env\<close>: \<open>SQLITEHELPER_SEED\<close> is set and the generator not seeded yet;
    \<open>insert_rows\<close>: \<open>None\<close> when every insert and the commit succeed; \<open>count_prepare_ok\<close>
    and \<open>count_result\<close>: the count statement prepares, and the count it yields.
  \<^item> \<open>backup_step i n\<close>: the status of call number \<open>i\<close> (from 0) of
    \<open>sqlite3_backup_step\<close>, made for \<open>n\<close> pages; \<open>backup_finish rc\<close>: the status of
    \<open>sqlite3_backup_finish\<close> after a loop that ended with \<open>rc\<close>; \<open>dest_errmsg\<close>: the
    destination's \<open>sqlite3_errmsg\<close> after a failed copy; \<open>dest_file_created\<close>: sqlite has
    created the destination file by the time \<open>backupToFile\<close> is over.
  \<^item> \<open>remove_fails\<close>: \<open>std::filesystem::remove\<close> raises; \<open>percent_of\<close>: the percentage as
    the floating-point expression of the progress lambda computes it.
\<close>

record env =
  fopen_ok :: "int \<Rightarrow> bool"
  easy_init_ok :: "int \<Rightarrow> bool"
  file_size :: "int \<Rightarrow> int option"
  curl_events :: "int \<Rightarrow> curl_event list"
  net_result :: "int \<Rightarrow> int"
  curl_easy_strerror :: "int \<Rightarrow> string"
  global_init_ok :: bool
  create_logs_dir :: "string option"
  db_stamp :: string
  db_open :: "string option"
  create_table_exec :: "string option"
  seed_env :: bool
  insert_rows :: "insert_failure option"
  count_prepare_ok :: bool
  count_result :: int
  dump_stamp :: string
  dest_open :: "string option"
  backup_init :: "string option"
  backup_step :: "nat \<Rightarrow> int \<Rightarrow> int"
  backup_finish :: "int \<Rightarrow> int"
  dest_errmsg :: string
  dest_file_created :: bool
  remove_fails :: bool
  percent_of :: "int \<Rightarrow> int \<Rightarrow> int"

text \<open>\<open>Logger::log\<close>: a message below the minimum level is dropped.\<close>

definition log :: "Level \<Rightarrow> string \<Rightarrow> world \<Rightarrow> world" where
  "log lvl msg w = (if level_rank lvl < level_rank (minLevel w) then w
                    else w\<lparr>entries := entries w @ [(lvl, msg)]\<rparr>)"

definition setLevel :: "Level \<Rightarrow> world \<Rightarrow> world" where
  "setLevel lvl w = w\<lparr>minLevel := lvl\<rparr>"

fun log_all :: "(Level \<times> string) list \<Rightarrow> world \<Rightarrow> world" where
  "log_all [] w = w"
| "log_all ((lvl, msg) # ls) w = log_all ls (log lvl msg w)"

subsection \<open>FtpUploader (FtpUploader.h, FtpUploader.cpp)\<close>

record FtpUploader =
  host :: string
  port :: int
  user :: string
  pass :: string
  timeoutSeconds :: int
  maxRetries :: int
  verbose :: bool
  progressCb :: "ProgressCallback option"
  lastError :: string
  sslVerify :: bool

text \<open>The constructor: the member initialiser list of FtpUploader.cpp decides the
  fields (it takes precedence over the default member initialisers of the header).\<close>

definition FtpUploader_ctor ::
  "env \<Rightarrow> string \<Rightarrow> int \<Rightarrow> string \<Rightarrow> string \<Rightarrow> world \<Rightarrow> FtpUploader \<times> world" where
  "FtpUploader_ctor e h p u pw w =
     (let w1 = (if global_init_ok e then w
                else log WARNING ''curl_global_init failed, continuing but curl may misbehave.'' w);
          w2 = log INFO (''FtpUploader initialized for host: '' @ h) w1
      in (\<lparr>host = h, port = p, user = u, pass = pw,
           timeoutSeconds = 30, maxRetries = 1, verbose = False, progressCb = None,
           lastError = [], sslVerify = True\<rparr>, w2))"

text \<open>The default member initialiser \<open>int maxRetries = 3;\<close> of FtpUploader.h, documented
  there as the default of \<open>setRetries\<close>. C++ ignores it for a member that the
  constructor's initialiser list names, as the list above does.\<close>

definition header_default_maxRetries :: int where
  "header_default_maxRetries = 3"

definition FtpUploader_dtor :: "FtpUploader \<Rightarrow> world \<Rightarrow> world" where
  "FtpUploader_dtor u w = log INFO (''FtpUploader destroyed for host: '' @ host u) w"

definition setTimeout :: "int \<Rightarrow> FtpUploader \<Rightarrow> FtpUploader" where
  "setTimeout seconds u = u\<lparr>timeoutSeconds := seconds\<rparr>"

definition setRetries :: "int \<Rightarrow> FtpUploader \<Rightarrow> FtpUploader" where
  "setRetries count u = u\<lparr>maxRetries := max 1 count\<rparr>"

definition enableVerbose :: "bool \<Rightarrow> FtpUploader \<Rightarrow> FtpUploader" where
  "enableVerbose v u = u\<lparr>verbose := v\<rparr>"

definition setProgressCallback :: "ProgressCallback option \<Rightarrow> FtpUploader \<Rightarrow> FtpUploader" where
  "setProgressCallback cb u = u\<lparr>progressCb := cb\<rparr>"

definition setSslVerify :: "bool \<Rightarrow> FtpUploader \<Rightarrow> FtpUploader" where
  "setSslVerify v u = u\<lparr>sslVerify := v\<rparr>"

text \<open>\<open>buildUrl\<close>. The first loop erases the front character while it is a slash, the
  second pops the back character while it is a slash.\<close>

fun erase_front_slashes :: "string \<Rightarrow> string" where
  "erase_front_slashes [] = []"
| "erase_front_slashes (c # cs) = (if c = slash then erase_front_slashes cs else c # cs)"

function pop_back_slashes :: "string \<Rightarrow> string" where
  "pop_back_slashes s = (if s \<noteq> [] \<and> last s = slash then pop_back_slashes (butlast s) else s)"
  by pat_completeness auto
termination
  by (relation "measure length") auto

declare pop_back_slashes.simps [simp del]

definition replace_char :: "char \<Rightarrow> char \<Rightarrow> string \<Rightarrow> string" where
  "replace_char old new s = map (\<lambda>c. if c = old then new else c) s"

definition cleanedDir :: "string \<Rightarrow> string" where
  "cleanedDir remoteDir = pop_back_slashes (erase_front_slashes (replace_char bslash slash remoteDir))"

definition buildUrl :: "FtpUploader \<Rightarrow> string \<Rightarrow> string \<Rightarrow> string" where
  "buildUrl u remoteDir filename =
     ''ftp://'' @ host u
     @ (if port u > 0 then '':'' @ to_string (port u) else [])
     @ (if cleanedDir remoteDir \<noteq> [] then ''/'' @ cleanedDir remoteDir else [])
     @ ''/'' @ filename"


text \<open>\<open>std::filesystem::path::filename\<close> with the POSIX separator: what follows the last slash.\<close>

definition path_filename :: "string \<Rightarrow> string" where
  "path_filename p = rev (takeWhile (\<lambda>c. c \<noteq> slash) (rev p))"

text \<open>\<open>sleepForBackoff\<close>: \<open>500LL * (1LL << std::min(attempt - 1, 6))\<close> milliseconds. Every
  caller passes \<open>attempt \<ge> 1\<close>, so the shift count is never negative; the product is at
  most 32000 and cannot overflow 64 bits.\<close>

definition sleepForBackoff :: "int \<Rightarrow> world \<Rightarrow> world" where
  "sleepForBackoff attempt w =
     w\<lparr>slept := slept w @ [500 * push_bit (nat (min (attempt - 1) 6)) 1]\<rparr>"

text \<open>\<open>curlProgress\<close>, the bridge libcurl calls: the caller's callback runs inside
  \<open>try\<close>; \<open>catch (...)\<close> turns anything thrown into the return value 1.\<close>

definition curlProgress :: "ProgressCallback option \<Rightarrow> xferinfo \<Rightarrow> world \<Rightarrow> int \<times> world" where
  "curlProgress clientp a w =
     (case clientp of
        None \<Rightarrow> (0, w)
      | Some cb \<Rightarrow>
          (case cb a of
             (Inl ex, ls) \<Rightarrow> (1, log_all ls w)
           | (Inr _, ls) \<Rightarrow> (0, log_all ls w)))"

text \<open>\<open>writeCallback\<close>: \<open>std::getline\<close> cuts the chunk at newlines (a last piece without
  a newline is a line too, unless it is empty); each non-empty line is logged.\<close>

fun getlines :: "string \<Rightarrow> string \<Rightarrow> string list" where
  "getlines cur [] = (if cur = [] then [] else [cur])"
| "getlines cur (c # cs) =
     (if c = CHR 0x0A then cur # getlines [] cs else getlines (cur @ [c]) cs)"

fun log_lines :: "string list \<Rightarrow> world \<Rightarrow> world" where
  "log_lines [] w = w"
| "log_lines (l # ls) w =
     log_lines ls (if l \<noteq> [] then log INFO (''FTP server: '' @ l) w else w)"

definition writeCallback :: "string \<Rightarrow> world \<Rightarrow> nat \<times> world" where
  "writeCallback chunk w = (length chunk, log_lines (getlines [] chunk) w)"

text \<open>
  \<open>curl_easy_perform\<close> is libcurl's; what is modelled of it is its documented use of
  the two callbacks. It calls the transfer-info function only when \<open>NOPROGRESS\<close> is 0 and
  aborts the transfer with \<open>CURLE_ABORTED_BY_CALLBACK\<close> as soon as that function returns
  non-zero; it hands response chunks to the write function, which here always reports
  the whole chunk as consumed. Otherwise the result is whatever the network gives.
\<close>

fun deliver :: "ProgressCallback option \<Rightarrow> bool \<Rightarrow> curl_event list \<Rightarrow> world \<Rightarrow> bool \<times> world" where
  "deliver clientp enabled [] w = (False, w)"
| "deliver clientp enabled (ServerData chunk # es) w =
     deliver clientp enabled es (snd (writeCallback chunk w))"
| "deliver clientp enabled (Progress a # es) w =
     (if enabled then
        (case curlProgress clientp a w of
           (rc, w1) \<Rightarrow> if rc \<noteq> 0 then (True, w1) else deliver clientp enabled es w1)
      else deliver clientp enabled es w)"

definition curl_easy_perform ::
  "env \<Rightarrow> ProgressCallback option \<Rightarrow> int \<Rightarrow> easy_opts \<Rightarrow> world \<Rightarrow> int \<times> world" where
  "curl_easy_perform e xferinfodata attempt opts w =
     (case deliver (if opt_xferinfo opts then xferinfodata else None) (opt_noprogress opts = 0)
             (curl_events e attempt) w of
        (aborted, w1) \<Rightarrow>
          (let res = (if aborted then CURLE_ABORTED_BY_CALLBACK else net_result e attempt)
           in (res, w1\<lparr>performs := performs w1 @ [(attempt, opts, res)]\<rparr>)))"

text \<open>The \<open>curl_easy_setopt\<close> calls of one attempt, as the record of options they leave.
  \<open>file_size\<close> throwing is caught and leaves \<open>INFILESIZE_LARGE\<close> unset.\<close>

definition setopts :: "env \<Rightarrow> FtpUploader \<Rightarrow> string \<Rightarrow> int \<Rightarrow> easy_opts" where
  "setopts e u url attempt =
     \<lparr>opt_url = url,
      opt_username = (if user u \<noteq> [] then Some (user u) else None),
      opt_password = (if pass u \<noteq> [] then Some (pass u) else None),
      opt_use_ssl = CURLUSESSL_ALL,
      opt_ssl_verifypeer = (if sslVerify u then 1 else 0),
      opt_ssl_verifyhost = (if sslVerify u then 2 else 0),
      opt_upload = 1,
      opt_create_missing_dirs = CURLFTP_CREATE_DIR_RETRY,
      opt_connecttimeout = timeoutSeconds u,
      opt_response_timeout = timeoutSeconds u,
      opt_verbose = (if verbose u then Some 1 else None),
      opt_xferinfo = (progressCb u \<noteq> None),
      opt_noprogress = (if progressCb u \<noteq> None then 0 else 1),
      opt_infilesize_large = file_size e attempt\<rparr>"

text \<open>The \<open>while (attempt < maxRetries)\<close> loop of \<open>uploadFile\<close> together with the two
  statements after it. \<open>attempt0\<close> is the counter on entry to an iteration.\<close>

function upload_loop ::
  "env \<Rightarrow> string \<Rightarrow> string \<Rightarrow> string \<Rightarrow> int \<Rightarrow> FtpUploader \<Rightarrow> world
     \<Rightarrow> (exn + unit) \<times> FtpUploader \<times> world" where
  "upload_loop e localFile filename url attempt0 u w =
     (if attempt0 < maxRetries u then
        (let attempt = attempt0 + 1;
             w1 = log INFO (''FTP upload attempt '' @ to_string attempt @ '' to URL: '' @ url) w
         in if \<not> fopen_ok e attempt then
              (Inl (runtime_error (''Failed to open local file: '' @ localFile)), u,
               log ERROR (''Failed to open local file: '' @ localFile) w1)
            else if \<not> easy_init_ok e attempt then
              (Inl (runtime_error ''Failed to initialize curl''), u,
               log ERROR ''Failed to initialize curl'' w1)
            else
              (let w2 = w1\<lparr>easy_inits := Suc (easy_inits w1)\<rparr>;
                   u1 = u\<lparr>lastError := []\<rparr>;
                   rw = curl_easy_perform e (progressCb u) attempt (setopts e u url attempt) w2;
                   res = fst rw;
                   w3 = snd rw
               in if res = CURLE_OK then
                    (Inr (), u1, log INFO (''FTP upload succeeded: '' @ filename) w3)
                  else
                    (let u2 = u1\<lparr>lastError := curl_easy_strerror e res\<rparr>;
                         w4 = log WARNING (''FTP upload attempt '' @ to_string attempt
                                            @ '' failed: '' @ lastError u2) w3;
                         w5 = (if attempt < maxRetries u
                               then sleepForBackoff attempt (log INFO ''Retrying after backoff...'' w4)
                               else w4)
                     in upload_loop e localFile filename url attempt u2 w5)))
      else
        (Inl (runtime_error (''FTP upload failed: '' @ lastError u)), u,
         log ERROR (''FTP upload failed after '' @ to_string (maxRetries u)
                     @ '' attempts: '' @ lastError u) w))"
  by pat_completeness auto
termination
  by (relation "measure (\<lambda>(e, localFile, filename, url, attempt0, u, w). nat (maxRetries u - attempt0))")
     auto

declare upload_loop.simps [simp del]

definition uploadFile ::
  "env \<Rightarrow> string \<Rightarrow> string \<Rightarrow> FtpUploader \<Rightarrow> world \<Rightarrow> (exn + unit) \<times> FtpUploader \<times> world" where
  "uploadFile e localFile remoteDir u w =
     (let w1 = log INFO (''Preparing to upload file: '' @ localFile @ '' to '' @ remoteDir) w
      in if localFile \<notin> files w1 then
           (Inl (runtime_error (''Local file does not exist: '' @ localFile)), u,
            log ERROR (''Local file does not exist: '' @ localFile) w1)
         else
           (let filename = path_filename localFile;
                url = buildUrl u remoteDir filename
            in upload_loop e localFile filename url 0 (u\<lparr>lastError := []\<rparr>) w1))"


subsection \<open>SqliteHelper (SqliteHelper.h, SqliteHelper.cpp)\<close>

record SqliteHelper =
  dbPath :: string

text \<open>The constructor opens (and so creates) the time-stamped database; an error
  message in \<open>db_open\<close> is a failed \<open>sqlite3_open\<close>.\<close>

definition SqliteHelper_ctor :: "env \<Rightarrow> string \<Rightarrow> world \<Rightarrow> (exn + SqliteHelper) \<times> world" where
  "SqliteHelper_ctor e dbPathPrefix w =
     (let p = dbPathPrefix @ ''_'' @ db_stamp e @ ''.sqlite'';
          w1 = log INFO (''Opening SQLite database: '' @ p) w
      in case db_open e of
           Some err \<Rightarrow>
             (Inl (runtime_error (''Can't open SQLite DB: '' @ err)),
              log ERROR (''Can't open SQLite DB: '' @ err) w1)
         | None \<Rightarrow> (Inr \<lparr>dbPath = p\<rparr>, w1\<lparr>files := insert p (files w1)\<rparr>))"

definition SqliteHelper_dtor :: "SqliteHelper \<Rightarrow> world \<Rightarrow> world" where
  "SqliteHelper_dtor db w = log INFO (''SQLite database closed: '' @ dbPath db) w"

definition createTable :: "env \<Rightarrow> world \<Rightarrow> (exn + unit) \<times> world" where
  "createTable e w =
     (let w1 = log INFO ''Creating table 'people' if not exists...'' w
      in case create_table_exec e of
           Some err \<Rightarrow>
             (Inl (runtime_error (''Failed to create table: '' @ err)),
              log ERROR (''Failed to create table: '' @ err) w1)
         | None \<Rightarrow> (Inr (), log INFO ''Table 'people' ready.'' w1))"

text \<open>\<open>insertRandomRows\<close>, by the place of its failure. A failure inside the \<open>try\<close>
  block is rolled back, logged and thrown again; the earlier ones are thrown as they are.\<close>

definition rolled_back :: "string \<Rightarrow> world \<Rightarrow> (exn + unit) \<times> world" where
  "rolled_back msg w =
     (Inl (runtime_error msg),
      log ERROR ''Transaction rolled back due to error during insertRandomRows'' w)"

definition insertRandomRows :: "env \<Rightarrow> int \<Rightarrow> world \<Rightarrow> (exn + unit) \<times> world" where
  "insertRandomRows e count w =
     (let w1 = log INFO (''Inserting '' @ to_string count @ '' random rows...'') w;
          w2 = (if seed_env e
                then log INFO ''Using deterministic RNG seed from SQLITEHELPER_SEED'' w1 else w1)
      in case insert_rows e of
           Some BeginFailed \<Rightarrow> (Inl (runtime_error ''Failed to begin transaction''), w1)
         | Some PrepareFailed \<Rightarrow>
             (Inl (runtime_error ''Failed to prepare insert statement''),
              log ERROR ''Failed to prepare insert statement'' w1)
         | Some (SeedInvalid msg) \<Rightarrow> (Inl (logic_error msg), w1)
         | Some (BindFailed i) \<Rightarrow> rolled_back (''Failed to bind values at row '' @ to_string i) w2
         | Some (StepFailed i) \<Rightarrow> rolled_back (''Insert failed at row '' @ to_string i) w2
         | Some CommitFailed \<Rightarrow> rolled_back ''Failed to commit transaction'' w2
         | None \<Rightarrow> (Inr (), log INFO (''Inserted '' @ to_string count @ '' rows successfully.'') w2))"

definition getRowCount :: "env \<Rightarrow> world \<Rightarrow> (exn + int) \<times> world" where
  "getRowCount e w =
     (if \<not> count_prepare_ok e then (Inl (runtime_error ''Failed to prepare count statement''), w)
      else (Inr (count_result e),
            log INFO (''Current row count: '' @ to_string (count_result e)) w))"

definition sqlite3_sleep :: "int \<Rightarrow> world \<Rightarrow> world" where
  "sqlite3_sleep ms w = w\<lparr>slept := slept w @ [ms]\<rparr>"

text \<open>The \<open>do ... while\<close> loop of \<open>backupToFile\<close>; \<open>i\<close> counts the calls of
  \<open>sqlite3_backup_step\<close> made so far. The loop has no counter of its own and no bound, so
  it is a partial function: \<open>None\<close> is a loop that never ends.\<close>

partial_function (option) backup_loop :: "env \<Rightarrow> nat \<Rightarrow> world \<Rightarrow> (int \<times> world) option" where
  "backup_loop e i w =
     (let rc = backup_step e i 1024;
          w1 = w\<lparr>step_calls := step_calls w @ [1024]\<rparr>;
          w2 = (if rc = SQLITE_BUSY \<or> rc = SQLITE_LOCKED then sqlite3_sleep 50 w1 else w1)
      in if rc = SQLITE_OK \<or> rc = SQLITE_BUSY \<or> rc = SQLITE_LOCKED
         then backup_loop e (Suc i) w2
         else Some (rc, w2))"

text \<open>What sqlite leaves at the destination path when \<open>backupToFile\<close> is over, with
  either outcome: it may have created the file, it never removes one.\<close>

definition dest_on_disk :: "env \<Rightarrow> string \<Rightarrow> world \<Rightarrow> world" where
  "dest_on_disk e dumpFile w =
     (if dest_file_created e then w\<lparr>files := insert dumpFile (files w)\<rparr> else w)"

definition backupToFile :: "env \<Rightarrow> string \<Rightarrow> world \<Rightarrow> ((exn + unit) \<times> world) option" where
  "backupToFile e dumpFile w =
     (let w1 = log INFO (''Performing binary backup to file: '' @ dumpFile) w
      in case dest_open e of
           Some err \<Rightarrow>
             Some (Inl (runtime_error (''Failed to open destination DB: '' @ err)),
                   dest_on_disk e dumpFile w1)
         | None \<Rightarrow>
             (case backup_init e of
                Some err \<Rightarrow>
                  Some (Inl (runtime_error (''sqlite3_backup_init failed: '' @ err)),
                        dest_on_disk e dumpFile w1)
              | None \<Rightarrow>
                  (case backup_loop e 0 w1 of
                     None \<Rightarrow> None
                   | Some (rc, w2) \<Rightarrow>
                       (let rcFinish = backup_finish e rc
                        in if rc \<noteq> SQLITE_DONE \<or> rcFinish \<noteq> SQLITE_OK then
                             Some (Inl (runtime_error (''sqlite3_backup failed: '' @ dest_errmsg e)),
                                   dest_on_disk e dumpFile w2)
                           else
                             Some (Inr (),
                                   log INFO (''Binary backup completed successfully to: '' @ dumpFile)
                                     (dest_on_disk e dumpFile w2))))))"

subsection \<open>The orchestrator (main.cpp)\<close>

record TempFileRemover =
  path_field :: string
  active_field :: bool

text \<open>The destructor of \<open>TempFileRemover\<close>: a throwing \<open>std::filesystem::remove\<close> is
  swallowed, leaves the file where it is and skips the log line.\<close>

definition TempFileRemover_dtor :: "env \<Rightarrow> TempFileRemover \<Rightarrow> world \<Rightarrow> world" where
  "TempFileRemover_dtor e r w =
     (if active_field r \<and> path_field r \<noteq> [] then
        (let w1 = w\<lparr>removes := removes w @ [path_field r]\<rparr>
         in if remove_fails e then w1
            else log INFO (''Temporary file removed: '' @ path_field r)
                   (w1\<lparr>files := files w1 - {path_field r}\<rparr>))
      else w)"

record BackupManager =
  sqlitePrefix :: string
  ftpHost :: string
  ftpPort :: int
  ftpUser :: string
  ftpPass :: string
  ftpDir :: string
  sslVerify_m :: bool
  rows :: int
  retries :: int
  timeout :: int
  logLevel :: Level

text \<open>The progress lambda of \<open>run\<close>. The percentage is computed in floating point;
  \<open>percent_of e ulnow ultotal\<close> stands for \<open>static_cast<int>((ulnow / ultotal) * 100.0)\<close>.\<close>

definition progress_lambda :: "env \<Rightarrow> ProgressCallback" where
  "progress_lambda e = (\<lambda>(dltotal, dlnow, ultotal, ulnow).
     if ultotal > 0
     then (Inr (), [(DEBUG, ''Upload progress: '' @ to_string (percent_of e ulnow ultotal) @ ''%'')])
     else (Inr (), []))"

text \<open>
  \<open>BackupManager::run\<close>. The \<open>try\<close> block is cut where its stages begin. Each way out
  of it runs the destructors of the locals alive at that point, in reverse order of
  construction: the uploader, the remover, the database.
\<close>

text \<open>Up to the snapshot: the log directory, the log level, the database with its
  table and rows, and the row count line. A failure after the database is open
  destroys it on the way out.\<close>

definition run_prepare :: "env \<Rightarrow> BackupManager \<Rightarrow> world \<Rightarrow> (exn + SqliteHelper) \<times> world" where
  "run_prepare e m w =
     (case create_logs_dir e of
        Some err \<Rightarrow> (Inl (filesystem_error err), w)
      | None \<Rightarrow>
          (case SqliteHelper_ctor e (sqlitePrefix m)
                  (setLevel (logLevel m) (w\<lparr>files := insert ''logs'' (files w)\<rparr>)) of
             (Inl ex, w1) \<Rightarrow> (Inl ex, w1)
           | (Inr db, w1) \<Rightarrow>
               (case createTable e w1 of
                  (Inl ex, w2) \<Rightarrow> (Inl ex, SqliteHelper_dtor db w2)
                | (Inr _, w2) \<Rightarrow>
                    (case insertRandomRows e (rows m) w2 of
                       (Inl ex, w3) \<Rightarrow> (Inl ex, SqliteHelper_dtor db w3)
                     | (Inr _, w3) \<Rightarrow>
                         (case getRowCount e w3 of
                            (Inl ex, w4) \<Rightarrow> (Inl ex, SqliteHelper_dtor db w4)
                          | (Inr n, w4) \<Rightarrow>
                              (Inr db,
                               log INFO (''Total rows after insert: '' @ to_string n) w4))))))"

definition dumpFile_of :: "env \<Rightarrow> BackupManager \<Rightarrow> string" where
  "dumpFile_of e m = sqlitePrefix m @ ''_backup_'' @ dump_stamp e @ ''.sqlite''"

text \<open>The uploader as \<open>run\<close> constructs and configures it, up to the log line before
  the upload.\<close>

definition make_uploader :: "env \<Rightarrow> BackupManager \<Rightarrow> world \<Rightarrow> FtpUploader \<times> world" where
  "make_uploader e m w =
     (let uw = FtpUploader_ctor e (ftpHost m) (ftpPort m) (ftpUser m) (ftpPass m) w;
          uploader = setProgressCallback (Some (progress_lambda e))
                       (setSslVerify (sslVerify_m m)
                         (setTimeout (timeout m)
                           (setRetries (retries m)
                             (enableVerbose True (fst uw)))))
      in (uploader, log INFO (''Starting upload to directory: '' @ ftpDir m) (snd uw)))"

definition run_try :: "env \<Rightarrow> BackupManager \<Rightarrow> world \<Rightarrow> ((exn + unit) \<times> world) option" where
  "run_try e m w =
     (case run_prepare e m w of
        (Inl ex, w1) \<Rightarrow> Some (Inl ex, w1)
      | (Inr db, w1) \<Rightarrow>
          (let dumpFile = dumpFile_of e m;
               remover = \<lparr>path_field = dumpFile, active_field = True\<rparr>
           in case backupToFile e dumpFile w1 of
                None \<Rightarrow> None
              | Some (Inl ex, w2) \<Rightarrow>
                  Some (Inl ex, SqliteHelper_dtor db (TempFileRemover_dtor e remover w2))
              | Some (Inr _, w2) \<Rightarrow>
                  (case make_uploader e m
                          (log INFO (''Database binary backup created at: '' @ dumpFile) w2) of
                     (uploader, w3) \<Rightarrow>
                       (case uploadFile e dumpFile (ftpDir m) uploader w3 of
                          (Inl ex, u1, w4) \<Rightarrow>
                            Some (Inl ex,
                                  SqliteHelper_dtor db
                                    (TempFileRemover_dtor e remover (FtpUploader_dtor u1 w4)))
                        | (Inr _, u1, w4) \<Rightarrow>
                            Some (Inr (),
                                  SqliteHelper_dtor db
                                    (TempFileRemover_dtor e remover
                                      (FtpUploader_dtor u1
                                        (log INFO ''Upload finished successfully.'' w4))))))))"

text \<open>\<open>run\<close>: the two handlers turn whatever left the \<open>try\<close> block into a log line at
  error severity and \<open>false\<close>.\<close>

definition run :: "env \<Rightarrow> BackupManager \<Rightarrow> world \<Rightarrow> (bool \<times> world) option" where
  "run e m w =
     (case run_try e m w of
        None \<Rightarrow> None
      | Some (Inl ex, w1) \<Rightarrow>
          (case what ex of
             Some msg \<Rightarrow> Some (False, log ERROR (''Exception during backup/upload: '' @ msg) w1)
           | None \<Rightarrow> Some (False, log ERROR ''Unknown exception during backup/upload.'' w1))
      | Some (Inr _, w1) \<Rightarrow> Some (True, w1))"

subsection \<open>Example data\<close>

text \<open>A concrete environment, world and uploader on which the statements below are
  evaluated: the first transfer fails to connect, the second succeeds; the first backup
  step finds the source busy, the second completes the copy.\<close>

definition example_env :: env where
  "example_env =
     \<lparr>fopen_ok = (\<lambda>k. True), easy_init_ok = (\<lambda>k. True), file_size = (\<lambda>k. Some 4096),
      curl_events = (\<lambda>k. if k = 1 then [ServerData ''220 ready'', Progress (0, 0, 4096, 1024)]
                          else []),
      net_result = (\<lambda>k. if k = 2 then 0 else 7),
      curl_easy_strerror = (\<lambda>c. if c = 7 then ''Could not connect to server''
                                 else if c = 42 then ''Operation was aborted by an application callback''
                                 else ''Unknown error''),
      global_init_ok = True, create_logs_dir = None, db_stamp = ''2024-01-01_00-00-00'',
      db_open = None, create_table_exec = None, seed_env = False, insert_rows = None,
      count_prepare_ok = True, count_result = 100, dump_stamp = ''2024-01-01_00-00-01'',
      dest_open = None, backup_init = None,
      backup_step = (\<lambda>i n. if i = 0 then 5 else 101),
      backup_finish = (\<lambda>rc. if rc = 101 then 0 else rc),
      dest_errmsg = ''not an error'', dest_file_created = True, remove_fails = False,
      percent_of = (\<lambda>now total. (now * 100) div total)\<rparr>"

definition example_world :: world where
  "example_world =
     \<lparr>files = {''b.sqlite''}, minLevel = DEBUG, entries = [], slept = [], easy_inits = 0,
      performs = [], step_calls = [], removes = []\<rparr>"

definition example_uploader :: FtpUploader where
  "example_uploader =
     \<lparr>host = ''127.0.0.1'', port = 21, user = ''user'', pass = ''pass'',
      timeoutSeconds = 30, maxRetries = 3, verbose = False, progressCb = None,
      lastError = [], sslVerify = True\<rparr>"

definition example_manager :: BackupManager where
  "example_manager =
     \<lparr>sqlitePrefix = ''db'', ftpHost = ''127.0.0.1'', ftpPort = 21, ftpUser = ''user'',
      ftpPass = ''pass'', ftpDir = ''remote'', sslVerify_m = False, rows = 100, retries = 3,
      timeout = 30, logLevel = INFO\<rparr>"

section \<open>Properties\<close>

subsection \<open>URL construction\<close>


lemma erase_front_slashes_dropWhile: "erase_front_slashes s = dropWhile (\<lambda>c. c = slash) s"
  by (induction s) auto

lemma pop_back_slashes_snoc:
  "pop_back_slashes (s @ [c]) = (if c = slash then pop_back_slashes s else s @ [c])"
  by (subst pop_back_slashes.simps) simp

lemma pop_back_slashes_Nil: "pop_back_slashes [] = []"
  by (subst pop_back_slashes.simps) simp

lemma pop_back_slashes_rev: "pop_back_slashes s = rev (dropWhile (\<lambda>c. c = slash) (rev s))"
  by (induction s rule: rev_induct) (simp_all add: pop_back_slashes_Nil pop_back_slashes_snoc)

lemma takeWhile_eq_replicate: "takeWhile (\<lambda>x. x = c) s = replicate (length (takeWhile (\<lambda>x. x = c) s)) c"
  by (induction s) simp_all

lemma strip_both_decomp:
  "\<exists>n k. s = replicate n c @ rev (dropWhile (\<lambda>x. x = c) (rev (dropWhile (\<lambda>x. x = c) s)))
            @ replicate k c"
proof -
  let ?P = "\<lambda>x. x = c"
  define core where "core = rev (dropWhile ?P (rev (dropWhile ?P s)))"
  let ?m = "dropWhile ?P s"
  have s: "s = takeWhile ?P s @ ?m" by simp
  have m: "?m = core @ rev (takeWhile ?P (rev ?m))"
    unfolding core_def
    by (simp only: rev_append [symmetric] takeWhile_dropWhile_id rev_rev_ident)
  have b: "rev (takeWhile ?P (rev ?m)) = replicate (length (takeWhile ?P (rev ?m))) c"
    by (subst takeWhile_eq_replicate) simp
  have f: "takeWhile ?P s = replicate (length (takeWhile ?P s)) c"
    by (rule takeWhile_eq_replicate)
  have "s = replicate (length (takeWhile ?P s)) c @ core
              @ replicate (length (takeWhile ?P (rev ?m))) c"
    using s m b f by metis
  then show ?thesis unfolding core_def by blast
qed


lemma strip_both_last:
  assumes "rev (dropWhile P (rev m)) \<noteq> []"
  shows "\<not> P (last (rev (dropWhile P (rev m))))"
proof -
  have ne: "dropWhile P (rev m) \<noteq> []" using assms by simp
  then have "\<not> P (hd (dropWhile P (rev m)))" by (rule hd_dropWhile)
  then show ?thesis using ne by (simp add: last_rev)
qed

lemma strip_both_hd:
  assumes "rev (dropWhile P (rev (dropWhile P s))) \<noteq> []"
  shows "\<not> P (hd (rev (dropWhile P (rev (dropWhile P s)))))"
proof -
  define m where "m = dropWhile P s"
  define core where "core = rev (dropWhile P (rev m))"
  have ne: "core \<noteq> []" using assms by (simp add: core_def m_def)
  have m: "m = core @ rev (takeWhile P (rev m))"
    unfolding core_def
    by (simp only: rev_append [symmetric] takeWhile_dropWhile_id rev_rev_ident)
  then have "m \<noteq> []" using ne by auto
  then have "\<not> P (hd m)" unfolding m_def by (rule hd_dropWhile)
  moreover have "hd m = hd core" by (subst m) (simp add: ne)
  ultimately show ?thesis by (simp add: core_def m_def)
qed

lemma cleanedDir_eq:
  "cleanedDir d = rev (dropWhile (\<lambda>x. x = slash) (rev (dropWhile (\<lambda>x. x = slash)
                    (map (\<lambda>c. if c = bslash then slash else c) d))))"
  by (simp add: cleanedDir_def erase_front_slashes_dropWhile pop_back_slashes_rev replace_char_def)

lemma cleanedDir_decomp:
  "\<exists>n k. map (\<lambda>c. if c = bslash then slash else c) d
           = replicate n slash @ cleanedDir d @ replicate k slash"
  unfolding cleanedDir_eq by (rule strip_both_decomp)

lemma cleanedDir_no_bslash: "bslash \<notin> set (cleanedDir d)"
proof
  assume "bslash \<in> set (cleanedDir d)"
  then have "bslash \<in> set (dropWhile (\<lambda>x. x = slash) (rev (dropWhile (\<lambda>x. x = slash)
                    (map (\<lambda>c. if c = bslash then slash else c) d))))"
    by (simp add: cleanedDir_eq)
  then have "bslash \<in> set (rev (dropWhile (\<lambda>x. x = slash)
                    (map (\<lambda>c. if c = bslash then slash else c) d)))"
    by (rule set_dropWhileD)
  then have "bslash \<in> set (dropWhile (\<lambda>x. x = slash)
                    (map (\<lambda>c. if c = bslash then slash else c) d))"
    by simp
  then have "bslash \<in> set (map (\<lambda>c. if c = bslash then slash else c) d)"
    by (rule set_dropWhileD)
  then show False by (auto simp: bslash_def slash_def split: if_splits)
qed

lemma cleanedDir_ends:
  "cleanedDir d \<noteq> [] \<Longrightarrow> hd (cleanedDir d) \<noteq> slash \<and> last (cleanedDir d) \<noteq> slash"
  unfolding cleanedDir_eq
  using strip_both_hd [of "\<lambda>x. x = slash"] strip_both_last [of "\<lambda>x. x = slash"]
  by blast

lemma cleanedDir_abs:
  "cleanedDir [CHR ''a'', bslash, CHR ''b'', bslash] = ''a/b''"
  "cleanedDir ''/a/b/'' = ''a/b''"
  "cleanedDir ''a/b'' = ''a/b''"
  by (simp_all add: cleanedDir_eq bslash_def slash_def)

text \<open>
  Claim C4. The three spellings \<open>a\b\\<close>, \<open>/a/b/\<close> and \<open>a/b\<close> of a remote directory give the
  same URL for every uploader and file name. In general the cleaned directory is the
  remote directory with every backslash replaced by a slash and then all leading and all
  trailing slashes taken off (nothing else is removed), it holds no backslash and neither
  starts nor ends with a slash, and the URL is
  \<open>ftp://host[:port][/cleanedDirectory]/filename\<close>, the port printed when positive and the
  directory inserted when non-empty.
\<close>

theorem C4_buildUrl:
  "buildUrl u [CHR ''a'', bslash, CHR ''b'', bslash] f = buildUrl u ''/a/b/'' f
   \<and> buildUrl u ''/a/b/'' f = buildUrl u ''a/b'' f
   \<and> buildUrl u ''a/b'' f =
       ''ftp://'' @ host u @ (if 0 < port u then '':'' @ to_string (port u) else []) @ ''/a/b/'' @ f
   \<and> (\<exists>n k. map (\<lambda>c. if c = bslash then slash else c) d
              = replicate n slash @ cleanedDir d @ replicate k slash)
   \<and> bslash \<notin> set (cleanedDir d)
   \<and> (cleanedDir d \<noteq> [] \<longrightarrow> hd (cleanedDir d) \<noteq> slash \<and> last (cleanedDir d) \<noteq> slash)
   \<and> buildUrl u d f =
       ''ftp://'' @ host u @ (if 0 < port u then '':'' @ to_string (port u) else [])
       @ (if cleanedDir d = [] then [] else ''/'' @ cleanedDir d) @ ''/'' @ f"
proof -
  have 1: "buildUrl u [CHR ''a'', bslash, CHR ''b'', bslash] f = buildUrl u ''/a/b/'' f"
    by (simp add: buildUrl_def cleanedDir_abs)
  have 2: "buildUrl u ''/a/b/'' f = buildUrl u ''a/b'' f"
    by (simp add: buildUrl_def cleanedDir_abs)
  have 3: "buildUrl u ''a/b'' f =
       ''ftp://'' @ host u @ (if 0 < port u then '':'' @ to_string (port u) else []) @ ''/a/b/'' @ f"
    by (simp add: buildUrl_def cleanedDir_abs)
  have 4: "buildUrl u d f =
       ''ftp://'' @ host u @ (if 0 < port u then '':'' @ to_string (port u) else [])
       @ (if cleanedDir d = [] then [] else ''/'' @ cleanedDir d) @ ''/'' @ f"
    by (simp add: buildUrl_def)
  show ?thesis
    using 1 2 3 4 cleanedDir_decomp [of d] cleanedDir_no_bslash [of d] cleanedDir_ends [of d]
    by blast
qed

theorem C4_buildUrl_witness:
  "cleanedDir ''/dir//'' \<noteq> [] \<and> hd (cleanedDir ''/dir//'') \<noteq> slash
   \<and> last (cleanedDir ''/dir//'') \<noteq> slash
   \<and> buildUrl \<lparr>host = ''127.0.0.1'', port = 21, user = ''user'', pass = ''pass'',
        timeoutSeconds = 30, maxRetries = 1, verbose = False, progressCb = None,
        lastError = [], sslVerify = True\<rparr> ''/dir//'' ''file.txt''
      = ''ftp://127.0.0.1:21/dir/file.txt''"
proof -
  have c: "cleanedDir ''/dir//'' = ''dir''"
    by (simp add: cleanedDir_eq bslash_def slash_def)
  have p: "to_string 21 = ''21''"
    by (simp add: to_string_def digits.simps)
  show ?thesis
    using C4_buildUrl [of "\<lparr>host = ''127.0.0.1'', port = 21, user = ''user'', pass = ''pass'',
        timeoutSeconds = 30, maxRetries = 1, verbose = False, progressCb = None,
        lastError = [], sslVerify = True\<rparr>" "''file.txt''" "''/dir//''"]
    by (simp add: c p)
qed

subsection \<open>Configuration\<close>

text \<open>
  Claim C2. A freshly constructed uploader has a timeout of 30 seconds, verification on
  and verbose diagnostics off, and \<open>setRetries\<close> never stores less than 1; but its
  \<open>maxRetries\<close> is 1, the value of the constructor's initialiser list, not the 3 that the
  header declares and documents.
\<close>

theorem C2_fresh_uploader_maxRetries:
  "timeoutSeconds (fst (FtpUploader_ctor e h p us pw w)) = 30
   \<and> maxRetries (fst (FtpUploader_ctor e h p us pw w)) = 1
   \<and> maxRetries (fst (FtpUploader_ctor e h p us pw w)) \<noteq> header_default_maxRetries
   \<and> sslVerify (fst (FtpUploader_ctor e h p us pw w))
   \<and> \<not> verbose (fst (FtpUploader_ctor e h p us pw w))
   \<and> 1 \<le> maxRetries (setRetries count u)"
  by (simp add: FtpUploader_ctor_def setRetries_def header_default_maxRetries_def Let_def)

subsection \<open>What each operation leaves untouched\<close>

lemma log_frame [simp]:
  "files (log l m w) = files w" "minLevel (log l m w) = minLevel w"
  "slept (log l m w) = slept w" "easy_inits (log l m w) = easy_inits w"
  "performs (log l m w) = performs w" "step_calls (log l m w) = step_calls w"
  "removes (log l m w) = removes w"
  by (simp_all add: log_def)

lemma log_all_frame [simp]:
  "files (log_all ls w) = files w" "minLevel (log_all ls w) = minLevel w"
  "slept (log_all ls w) = slept w" "easy_inits (log_all ls w) = easy_inits w"
  "performs (log_all ls w) = performs w" "step_calls (log_all ls w) = step_calls w"
  "removes (log_all ls w) = removes w"
  by (induction ls w rule: log_all.induct; simp)+

lemma log_lines_frame [simp]:
  "files (log_lines ls w) = files w" "minLevel (log_lines ls w) = minLevel w"
  "slept (log_lines ls w) = slept w" "easy_inits (log_lines ls w) = easy_inits w"
  "performs (log_lines ls w) = performs w" "step_calls (log_lines ls w) = step_calls w"
  "removes (log_lines ls w) = removes w"
  by (induction ls w rule: log_lines.induct; simp)+

lemma curlProgress_frame [simp]:
  "files (snd (curlProgress cb a w)) = files w"
  "minLevel (snd (curlProgress cb a w)) = minLevel w"
  "slept (snd (curlProgress cb a w)) = slept w"
  "easy_inits (snd (curlProgress cb a w)) = easy_inits w"
  "performs (snd (curlProgress cb a w)) = performs w"
  "step_calls (snd (curlProgress cb a w)) = step_calls w"
  "removes (snd (curlProgress cb a w)) = removes w"
  by (simp_all add: curlProgress_def split: option.splits prod.splits sum.splits)

lemma curlProgress_fst:
  "fst (curlProgress cb a w) = (case cb of None \<Rightarrow> 0 | Some f \<Rightarrow> if isl (fst (f a)) then 1 else 0)"
  by (simp add: curlProgress_def split: option.splits prod.splits sum.splits)

lemma writeCallback_frame [simp]:
  "files (snd (writeCallback c w)) = files w"
  "minLevel (snd (writeCallback c w)) = minLevel w"
  "slept (snd (writeCallback c w)) = slept w"
  "easy_inits (snd (writeCallback c w)) = easy_inits w"
  "performs (snd (writeCallback c w)) = performs w"
  "step_calls (snd (writeCallback c w)) = step_calls w"
  "removes (snd (writeCallback c w)) = removes w"
  by (simp_all add: writeCallback_def)

lemma deliver_frame [simp]:
  "files (snd (deliver cb en es w)) = files w"
  "minLevel (snd (deliver cb en es w)) = minLevel w"
  "slept (snd (deliver cb en es w)) = slept w"
  "easy_inits (snd (deliver cb en es w)) = easy_inits w"
  "performs (snd (deliver cb en es w)) = performs w"
  "step_calls (snd (deliver cb en es w)) = step_calls w"
  "removes (snd (deliver cb en es w)) = removes w"
  by (induction cb en es w rule: deliver.induct; simp split: prod.splits; (metis curlProgress_frame snd_conv)?)+


lemma deliver_fst_indep: "fst (deliver cb en es w) = fst (deliver cb en es w')"
proof (induction es arbitrary: w w')
  case Nil
  show ?case by simp
next
  case (Cons ev es)
  show ?case
  proof (cases ev)
    case (ServerData c)
    then show ?thesis using Cons.IH by simp
  next
    case (Progress a)
    have r: "fst (curlProgress cb a w) = fst (curlProgress cb a w')"
      by (simp add: curlProgress_fst)
    show ?thesis
      using Progress r Cons.IH [of "snd (curlProgress cb a w)" "snd (curlProgress cb a w')"]
        Cons.IH [of w w']
      by (cases en) (simp_all add: case_prod_beta)
  qed
qed

lemma perform_fst_indep:
  "fst (curl_easy_perform e cb k opts w) = fst (curl_easy_perform e cb k opts w')"
  using deliver_fst_indep [of "if opt_xferinfo opts then cb else None" "opt_noprogress opts = 0"
      "curl_events e k" w w']
  by (simp add: curl_easy_perform_def Let_def case_prod_beta)

lemma perform_frame [simp]:
  "files (snd (curl_easy_perform e cb k opts w)) = files w"
  "minLevel (snd (curl_easy_perform e cb k opts w)) = minLevel w"
  "slept (snd (curl_easy_perform e cb k opts w)) = slept w"
  "easy_inits (snd (curl_easy_perform e cb k opts w)) = easy_inits w"
  "step_calls (snd (curl_easy_perform e cb k opts w)) = step_calls w"
  "removes (snd (curl_easy_perform e cb k opts w)) = removes w"
  using deliver_frame [of "if opt_xferinfo opts then cb else None" "opt_noprogress opts = 0"
      "curl_events e k" w]
  by (simp_all add: curl_easy_perform_def Let_def case_prod_beta)

lemma perform_performs [simp]:
  "performs (snd (curl_easy_perform e cb k opts w))
     = performs w @ [(k, opts, fst (curl_easy_perform e cb k opts w))]"
  using deliver_frame(5) [of "if opt_xferinfo opts then cb else None" "opt_noprogress opts = 0"
      "curl_events e k" w]
  by (simp add: curl_easy_perform_def Let_def case_prod_beta)

lemma setopts_lastError [simp]: "setopts e (u\<lparr>lastError := x\<rparr>) url k = setopts e u url k"
  by (simp add: setopts_def)

lemma sleepForBackoff_frame [simp]:
  "files (sleepForBackoff k w) = files w" "minLevel (sleepForBackoff k w) = minLevel w"
  "entries (sleepForBackoff k w) = entries w"
  "easy_inits (sleepForBackoff k w) = easy_inits w"
  "performs (sleepForBackoff k w) = performs w" "step_calls (sleepForBackoff k w) = step_calls w"
  "removes (sleepForBackoff k w) = removes w"
  "slept (sleepForBackoff k w) = slept w @ [500 * 2 ^ nat (min (k - 1) 6)]"
  by (simp_all add: sleepForBackoff_def push_bit_eq_mult)

lemma upload_loop_exhausted:
  "\<not> a < maxRetries u \<Longrightarrow>
   upload_loop e lf fn url a u w =
     (Inl (runtime_error (''FTP upload failed: '' @ lastError u)), u,
      log ERROR (''FTP upload failed after '' @ to_string (maxRetries u)
                  @ '' attempts: '' @ lastError u) w)"
  by (subst upload_loop.simps) simp

lemma upload_loop_fopen:
  "a < maxRetries u \<Longrightarrow> \<not> fopen_ok e (a + 1) \<Longrightarrow>
   upload_loop e lf fn url a u w =
     (Inl (runtime_error (''Failed to open local file: '' @ lf)), u,
      log ERROR (''Failed to open local file: '' @ lf)
        (log INFO (''FTP upload attempt '' @ to_string (a + 1) @ '' to URL: '' @ url) w))"
  by (subst upload_loop.simps) (simp add: Let_def)

lemma upload_loop_init:
  "a < maxRetries u \<Longrightarrow> fopen_ok e (a + 1) \<Longrightarrow> \<not> easy_init_ok e (a + 1) \<Longrightarrow>
   upload_loop e lf fn url a u w =
     (Inl (runtime_error ''Failed to initialize curl''), u,
      log ERROR ''Failed to initialize curl''
        (log INFO (''FTP upload attempt '' @ to_string (a + 1) @ '' to URL: '' @ url) w))"
  by (subst upload_loop.simps) (simp add: Let_def)

lemma upload_loop_iter:
  assumes lt: "a < maxRetries u" and fo: "fopen_ok e (a + 1)" and io: "easy_init_ok e (a + 1)"
  shows "\<exists>w3 w5.
     upload_loop e lf fn url a u w =
       (if fst (curl_easy_perform e (progressCb u) (a + 1) (setopts e u url (a + 1)) w) = CURLE_OK
        then (Inr (), u\<lparr>lastError := []\<rparr>, w3)
        else upload_loop e lf fn url (a + 1)
               (u\<lparr>lastError := curl_easy_strerror e
                   (fst (curl_easy_perform e (progressCb u) (a + 1) (setopts e u url (a + 1)) w))\<rparr>) w5)
     \<and> files w3 = files w \<and> files w5 = files w
     \<and> minLevel w3 = minLevel w \<and> minLevel w5 = minLevel w
     \<and> step_calls w3 = step_calls w \<and> step_calls w5 = step_calls w
     \<and> removes w3 = removes w \<and> removes w5 = removes w
     \<and> easy_inits w3 = Suc (easy_inits w) \<and> easy_inits w5 = Suc (easy_inits w)
     \<and> slept w3 = slept w
     \<and> slept w5 = slept w @ (if a + 1 < maxRetries u then [500 * 2 ^ nat (min a 6)] else [])
     \<and> performs w3 = performs w @ [(a + 1, setopts e u url (a + 1),
           fst (curl_easy_perform e (progressCb u) (a + 1) (setopts e u url (a + 1)) w))]
     \<and> performs w5 = performs w3"
proof -
  define w2 where "w2 = (log INFO (''FTP upload attempt '' @ to_string (a + 1) @ '' to URL: '' @ url) w)
                          \<lparr>easy_inits := Suc (easy_inits w)\<rparr>"
  define rw where "rw = curl_easy_perform e (progressCb u) (a + 1) (setopts e u url (a + 1)) w2"
  define w3 where "w3 = log INFO (''FTP upload succeeded: '' @ fn) (snd rw)"
  define w4 where "w4 = log WARNING (''FTP upload attempt '' @ to_string (a + 1)
                           @ '' failed: '' @ curl_easy_strerror e (fst rw)) (snd rw)"
  define w5 where "w5 = (if a + 1 < maxRetries u
                         then sleepForBackoff (a + 1) (log INFO ''Retrying after backoff...'' w4)
                         else w4)"
  have res: "fst rw = fst (curl_easy_perform e (progressCb u) (a + 1) (setopts e u url (a + 1)) w)"
    unfolding rw_def by (rule perform_fst_indep)
  have w2f: "files w2 = files w" "minLevel w2 = minLevel w" "step_calls w2 = step_calls w"
    "removes w2 = removes w" "easy_inits w2 = Suc (easy_inits w)" "slept w2 = slept w"
    "performs w2 = performs w"
    by (simp_all add: w2_def)
  have eq: "upload_loop e lf fn url a u w =
       (if fst rw = CURLE_OK then (Inr (), u\<lparr>lastError := []\<rparr>, w3)
        else upload_loop e lf fn url (a + 1) (u\<lparr>lastError := curl_easy_strerror e (fst rw)\<rparr>) w5)"
    using lt fo io
    by (subst upload_loop.simps) (simp add: Let_def w2_def rw_def w3_def w4_def w5_def)
  have f3: "files w3 = files w" "minLevel w3 = minLevel w" "step_calls w3 = step_calls w"
    "removes w3 = removes w" "easy_inits w3 = Suc (easy_inits w)" "slept w3 = slept w"
    "performs w3 = performs w @ [(a + 1, setopts e u url (a + 1), fst rw)]"
    by (simp_all add: w3_def rw_def w2f)
  have f4: "files w4 = files w" "minLevel w4 = minLevel w" "step_calls w4 = step_calls w"
    "removes w4 = removes w" "easy_inits w4 = Suc (easy_inits w)" "slept w4 = slept w"
    "performs w4 = performs w3"
    by (simp_all add: w4_def w3_def rw_def w2f)
  have f5: "files w5 = files w" "minLevel w5 = minLevel w" "step_calls w5 = step_calls w"
    "removes w5 = removes w" "easy_inits w5 = Suc (easy_inits w)"
    "slept w5 = slept w @ (if a + 1 < maxRetries u then [500 * 2 ^ nat (min a 6)] else [])"
    "performs w5 = performs w3"
    by (simp_all add: w5_def f4)
  show ?thesis
    using eq f3 f5 unfolding res by blast
qed

subsection \<open>The retry loop\<close>

lemma upload_loop_spec:
  assumes "maxRetries u = R" and "a < R"
    and "\<forall>k. a < k \<and> k \<le> R \<longrightarrow> fopen_ok e k \<and> easy_init_ok e k"
    and "\<And>k w. fst (curl_easy_perform e (progressCb u) k (setopts e u url k) w) = S k"
    and "\<And>k. setopts e u url k = Op k"
  shows "\<exists>n u' w'. a < n \<and> n \<le> R
     \<and> (\<forall>k. a < k \<and> k < n \<longrightarrow> S k \<noteq> CURLE_OK)
     \<and> upload_loop e lf fn url a u w =
          ((if S n = CURLE_OK then Inr ()
            else Inl (runtime_error (''FTP upload failed: '' @ curl_easy_strerror e (S n)))), u', w')
     \<and> (S n \<noteq> CURLE_OK \<longrightarrow> n = R \<and> lastError u' = curl_easy_strerror e (S n))
     \<and> performs w' = performs w @ map (\<lambda>k. (k, Op k, S k)) [a + 1..n]
     \<and> slept w' = slept w @ map (\<lambda>k. 500 * 2 ^ nat (min (k - 1) 6)) [a + 1..n - 1]
     \<and> easy_inits w' = easy_inits w + nat (n - a)
     \<and> files w' = files w \<and> removes w' = removes w \<and> minLevel w' = minLevel w
     \<and> step_calls w' = step_calls w"
  using assms
proof (induction "nat (R - a)" arbitrary: a u w)
  case 0
  then show ?case by simp
next
  case (Suc m)
  have lt: "a < maxRetries u" using Suc.prems by simp
  have fo: "fopen_ok e (a + 1)" and io: "easy_init_ok e (a + 1)" using Suc.prems by simp_all
  have Sa: "fst (curl_easy_perform e (progressCb u) (a + 1) (setopts e u url (a + 1)) w) = S (a + 1)"
    by (rule Suc.prems(4))
  obtain w3 w5 where
    eq: "upload_loop e lf fn url a u w =
       (if S (a + 1) = CURLE_OK then (Inr (), u\<lparr>lastError := []\<rparr>, w3)
        else upload_loop e lf fn url (a + 1)
               (u\<lparr>lastError := curl_easy_strerror e (S (a + 1))\<rparr>) w5)"
    and f3: "files w3 = files w" "minLevel w3 = minLevel w" "step_calls w3 = step_calls w"
      "removes w3 = removes w" "easy_inits w3 = Suc (easy_inits w)" "slept w3 = slept w"
      "performs w3 = performs w @ [(a + 1, setopts e u url (a + 1), S (a + 1))]"
    and f5: "files w5 = files w" "minLevel w5 = minLevel w" "step_calls w5 = step_calls w"
      "removes w5 = removes w" "easy_inits w5 = Suc (easy_inits w)"
      "slept w5 = slept w @ (if a + 1 < maxRetries u then [500 * 2 ^ nat (min a 6)] else [])"
      "performs w5 = performs w3"
    using upload_loop_iter [OF lt fo io, of lf fn url w] unfolding Sa by blast
  note f3' = f3(1-6) f3(7) [unfolded Suc.prems(5)]
  show ?case
  proof (cases "S (a + 1) = CURLE_OK")
    case True
    show ?thesis
      by (intro exI [of _ "a + 1"] exI [of _ "u\<lparr>lastError := []\<rparr>"] exI [of _ w3])
        (use True eq f3' Suc.prems(1,2) in simp)
  next
    case False
    let ?u2 = "u\<lparr>lastError := curl_easy_strerror e (S (a + 1))\<rparr>"
    show ?thesis
    proof (cases "a + 1 < R")
      case True
      have m: "m = nat (R - (a + 1))" using Suc.hyps(2) by simp
      have p1: "maxRetries ?u2 = R" using Suc.prems(1) by simp
      have p3: "\<forall>k. a + 1 < k \<and> k \<le> R \<longrightarrow> fopen_ok e k \<and> easy_init_ok e k"
        using Suc.prems(3) by simp
      have p4: "\<And>k w. fst (curl_easy_perform e (progressCb ?u2) k (setopts e ?u2 url k) w) = S k"
        using Suc.prems(4) by simp
      have p5: "\<And>k. setopts e ?u2 url k = Op k"
        using Suc.prems(5) by simp
      obtain n u' w' where
        n: "a + 1 < n" "n \<le> R"
        and fails: "\<forall>k. a + 1 < k \<and> k < n \<longrightarrow> S k \<noteq> CURLE_OK"
        and res: "upload_loop e lf fn url (a + 1) ?u2 w5 =
          ((if S n = CURLE_OK then Inr ()
            else Inl (runtime_error (''FTP upload failed: '' @ curl_easy_strerror e (S n)))), u', w')"
        and last: "S n \<noteq> CURLE_OK \<longrightarrow> n = R \<and> lastError u' = curl_easy_strerror e (S n)"
        and tr: "performs w' = performs w5 @ map (\<lambda>k. (k, Op k, S k)) [a + 1 + 1..n]"
        and sl: "slept w' = slept w5 @ map (\<lambda>k. 500 * 2 ^ nat (min (k - 1) 6)) [a + 1 + 1..n - 1]"
        and rest: "easy_inits w' = easy_inits w5 + nat (n - (a + 1))"
          "files w' = files w5" "removes w' = removes w5" "minLevel w' = minLevel w5"
          "step_calls w' = step_calls w5"
        using Suc.hyps(1) [OF m p1 True p3 p4 p5, of w5] by blast
      have fails': "\<forall>k. a < k \<and> k < n \<longrightarrow> S k \<noteq> CURLE_OK"
      proof (intro allI impI)
        fix k assume k: "a < k \<and> k < n"
        show "S k \<noteq> CURLE_OK"
        proof (cases "k = a + 1")
          case True
          then show ?thesis using False by simp
        next
          case False
          then show ?thesis using k fails by simp
        qed
      qed
      have u1: "[a + 1..n] = (a + 1) # [a + 1 + 1..n]" using n by (simp add: upto_rec1)
      have u2: "[a + 1..n - 1] = (a + 1) # [a + 1 + 1..n - 1]" using n by (simp add: upto_rec1)
      have tr': "performs w' = performs w @ map (\<lambda>k. (k, Op k, S k)) [a + 1..n]"
        using tr f5 f3' by (simp add: u1)
      have sl': "slept w' = slept w @ map (\<lambda>k. 500 * 2 ^ nat (min (k - 1) 6)) [a + 1..n - 1]"
        using sl f5 True Suc.prems(1) by (simp add: u2)
      have ei: "easy_inits w' = easy_inits w + nat (n - a)"
        using rest f5 n by simp
      have less: "a < n" using n by simp
      have eq': "upload_loop e lf fn url a u w =
          ((if S n = CURLE_OK then Inr ()
            else Inl (runtime_error (''FTP upload failed: '' @ curl_easy_strerror e (S n)))), u', w')"
        using eq False res by simp
      have fr: "files w' = files w" "removes w' = removes w" "minLevel w' = minLevel w"
        "step_calls w' = step_calls w"
        using rest f5 by simp_all
      show ?thesis
        using less n(2) fails' eq' last tr' sl' ei fr by blast
    next
      case lastc: False
      have aR: "a + 1 = R" using lastc Suc.prems(2) by simp
      have ex: "\<not> a + 1 < maxRetries ?u2" using lastc Suc.prems(1) by simp
      define w6 where "w6 = log ERROR (''FTP upload failed after '' @ to_string (maxRetries ?u2)
                  @ '' attempts: '' @ lastError ?u2) w5"
      have eq': "upload_loop e lf fn url a u w =
          (Inl (runtime_error (''FTP upload failed: '' @ curl_easy_strerror e (S (a + 1)))), ?u2, w6)"
        using eq False upload_loop_exhausted [OF ex, of e lf fn url w5] by (simp add: w6_def)
      have f6: "files w6 = files w" "minLevel w6 = minLevel w" "step_calls w6 = step_calls w"
        "removes w6 = removes w" "easy_inits w6 = Suc (easy_inits w)" "slept w6 = slept w"
        "performs w6 = performs w @ [(a + 1, Op (a + 1), S (a + 1))]"
        using f5 f3' lastc Suc.prems(1) by (simp_all add: w6_def)
      show ?thesis
        by (intro exI [of _ "a + 1"] exI [of _ ?u2] exI [of _ w6])
          (use False eq' f6 aR in simp)
    qed
  qed
qed

lemma upload_loop_trace:
  assumes "\<And>k w. fst (curl_easy_perform e (progressCb u) k (setopts e u url k) w) = S k"
    and "\<And>k. setopts e u url k = Op k"
  shows "\<exists>T r u' w'. upload_loop e lf fn url a u w = (r, u', w')
     \<and> performs w' = performs w @ T
     \<and> (\<forall>t\<in>set T. a < fst t \<and> t = (fst t, Op (fst t), S (fst t)))
     \<and> (r = Inr () \<or> r = Inl (runtime_error (''Failed to open local file: '' @ lf))
          \<or> r = Inl (runtime_error ''Failed to initialize curl'')
          \<or> r = Inl (runtime_error (''FTP upload failed: '' @ lastError u')))
     \<and> files w' = files w \<and> removes w' = removes w \<and> minLevel w' = minLevel w
     \<and> step_calls w' = step_calls w"
  using assms
proof (induction "nat (maxRetries u - a)" arbitrary: a u w)
  case 0
  then have ex: "\<not> a < maxRetries u" by simp
  show ?case
    unfolding upload_loop_exhausted [OF ex]
    by (intro exI [of _ "[]"]) simp
next
  case (Suc m)
  have lt: "a < maxRetries u" using Suc.hyps(2) by simp
  show ?case
  proof (cases "fopen_ok e (a + 1)")
    case False
    show ?thesis
      unfolding upload_loop_fopen [OF lt False]
      by (intro exI [of _ "[]"]) simp
  next
    case fo: True
    show ?thesis
    proof (cases "easy_init_ok e (a + 1)")
      case False
      show ?thesis
        unfolding upload_loop_init [OF lt fo False]
        by (intro exI [of _ "[]"]) simp
    next
      case io: True
      have Sa: "fst (curl_easy_perform e (progressCb u) (a + 1) (setopts e u url (a + 1)) w) = S (a + 1)"
        by (rule Suc.prems(1))
      obtain w3 w5 where
        eq: "upload_loop e lf fn url a u w =
           (if S (a + 1) = CURLE_OK then (Inr (), u\<lparr>lastError := []\<rparr>, w3)
            else upload_loop e lf fn url (a + 1)
                   (u\<lparr>lastError := curl_easy_strerror e (S (a + 1))\<rparr>) w5)"
        and f3: "files w3 = files w" "minLevel w3 = minLevel w" "step_calls w3 = step_calls w"
          "removes w3 = removes w"
          "performs w3 = performs w @ [(a + 1, setopts e u url (a + 1), S (a + 1))]"
        and f5: "files w5 = files w" "minLevel w5 = minLevel w" "step_calls w5 = step_calls w"
          "removes w5 = removes w" "performs w5 = performs w3"
        using upload_loop_iter [OF lt fo io, of lf fn url w] unfolding Sa by blast
      note f3' = f3(1-4) f3(5) [unfolded Suc.prems(2)]
      show ?thesis
      proof (cases "S (a + 1) = CURLE_OK")
        case True
        show ?thesis
          by (intro exI [of _ "[(a + 1, Op (a + 1), S (a + 1))]"] exI [of _ "Inr ()"]
                exI [of _ "u\<lparr>lastError := []\<rparr>"] exI [of _ w3])
            (use True eq f3' in simp)
      next
        case False
        let ?u2 = "u\<lparr>lastError := curl_easy_strerror e (S (a + 1))\<rparr>"
        have m: "m = nat (maxRetries ?u2 - (a + 1))" using Suc.hyps(2) by simp
        have p4: "\<And>k w. fst (curl_easy_perform e (progressCb ?u2) k (setopts e ?u2 url k) w) = S k"
          using Suc.prems(1) by simp
        have p5: "\<And>k. setopts e ?u2 url k = Op k"
          using Suc.prems(2) by simp
        obtain T r u' w' where
          res: "upload_loop e lf fn url (a + 1) ?u2 w5 = (r, u', w')"
          and tr: "performs w' = performs w5 @ T"
          and sh: "\<forall>t\<in>set T. a + 1 < fst t \<and> t = (fst t, Op (fst t), S (fst t))"
          and rr: "r = Inr () \<or> r = Inl (runtime_error (''Failed to open local file: '' @ lf))
                 \<or> r = Inl (runtime_error ''Failed to initialize curl'')
                 \<or> r = Inl (runtime_error (''FTP upload failed: '' @ lastError u'))"
          and fr: "files w' = files w5" "removes w' = removes w5" "minLevel w' = minLevel w5"
            "step_calls w' = step_calls w5"
          using Suc.hyps(1) [OF m p4 p5, of w5] by blast
        have eq': "upload_loop e lf fn url a u w = (r, u', w')" using eq False res by simp
        have tr': "performs w' = performs w @ ((a + 1, Op (a + 1), S (a + 1)) # T)"
          using tr f5 f3' by simp
        have sh': "\<forall>t\<in>set ((a + 1, Op (a + 1), S (a + 1)) # T).
                     a < fst t \<and> t = (fst t, Op (fst t), S (fst t))"
          using sh by auto
        have fr': "files w' = files w" "removes w' = removes w" "minLevel w' = minLevel w"
          "step_calls w' = step_calls w"
          using fr f5 by simp_all
        show ?thesis
          using eq' tr' sh' rr fr' by blast
      qed
    qed
  qed
qed

lemma uploadFile_trace:
  "\<exists>T r u' w'. uploadFile e lf rd u w = (r, u', w')
     \<and> performs w' = performs w @ T
     \<and> (\<forall>t\<in>set T. 0 < fst t
           \<and> t = (fst t, setopts e u (buildUrl u rd (path_filename lf)) (fst t),
                  fst (curl_easy_perform e (progressCb u) (fst t)
                        (setopts e u (buildUrl u rd (path_filename lf)) (fst t)) w0)))
     \<and> (r = Inr () \<or> r = Inl (runtime_error (''Local file does not exist: '' @ lf))
          \<or> r = Inl (runtime_error (''Failed to open local file: '' @ lf))
          \<or> r = Inl (runtime_error ''Failed to initialize curl'')
          \<or> r = Inl (runtime_error (''FTP upload failed: '' @ lastError u')))
     \<and> files w' = files w \<and> removes w' = removes w \<and> minLevel w' = minLevel w
     \<and> step_calls w' = step_calls w"
proof (cases "lf \<in> files w")
  case False
  show ?thesis
    by (intro exI [of _ "[]"]) (use False in \<open>simp add: uploadFile_def Let_def\<close>)
next
  case True
  let ?url = "buildUrl u rd (path_filename lf)"
  let ?u0 = "u\<lparr>lastError := []\<rparr>"
  let ?w1 = "log INFO (''Preparing to upload file: '' @ lf @ '' to '' @ rd) w"
  have eq: "uploadFile e lf rd u w = upload_loop e lf (path_filename lf) ?url 0 ?u0 ?w1"
    using True by (simp add: uploadFile_def Let_def buildUrl_def)
  have p4: "\<And>k w. fst (curl_easy_perform e (progressCb ?u0) k (setopts e ?u0 ?url k) w)
              = fst (curl_easy_perform e (progressCb u) k (setopts e u ?url k) w0)"
    using perform_fst_indep by simp
  have p5: "\<And>k. setopts e ?u0 ?url k = setopts e u ?url k" by simp
  obtain T r u' w' where
    res: "upload_loop e lf (path_filename lf) ?url 0 ?u0 ?w1 = (r, u', w')"
    and tr: "performs w' = performs ?w1 @ T"
    and sh: "\<forall>t\<in>set T. 0 < fst t
           \<and> t = (fst t, setopts e u ?url (fst t),
                  fst (curl_easy_perform e (progressCb u) (fst t) (setopts e u ?url (fst t)) w0))"
    and rr: "r = Inr () \<or> r = Inl (runtime_error (''Failed to open local file: '' @ lf))
          \<or> r = Inl (runtime_error ''Failed to initialize curl'')
          \<or> r = Inl (runtime_error (''FTP upload failed: '' @ lastError u'))"
    and fr: "files w' = files ?w1" "removes w' = removes ?w1" "minLevel w' = minLevel ?w1"
      "step_calls w' = step_calls ?w1"
    using upload_loop_trace [OF p4 p5, of lf "path_filename lf" 0 ?w1] by blast
  have res': "uploadFile e lf rd u w = (r, u', w')" using eq res by simp
  have tr': "performs w' = performs w @ T" using tr by simp
  have fr': "files w' = files w" "removes w' = removes w" "minLevel w' = minLevel w"
    "step_calls w' = step_calls w"
    using fr by simp_all
  show ?thesis
    using res' tr' sh rr fr' by blast
qed

subsection \<open>The transport client\<close>

text \<open>
  Claim C5. When the local file does not exist, \<open>uploadFile\<close> throws at once, whatever the
  remote directory and the configuration: no transfer is performed, no handle is
  created, nothing is slept and the uploader is left as it was.
\<close>

theorem C5_uploadFile_missing_file:
  assumes "localFile \<notin> files w"
  shows "\<exists>w'. uploadFile e localFile remoteDir u w =
            (Inl (runtime_error (''Local file does not exist: '' @ localFile)), u, w')
          \<and> performs w' = performs w \<and> easy_inits w' = easy_inits w
          \<and> slept w' = slept w \<and> files w' = files w"
  using assms by (simp add: uploadFile_def Let_def)

text \<open>The case of the test \<open>UploadNonExistentFileThrows\<close>.\<close>

theorem C5_uploadFile_missing_file_witness:
  "''nonexistent.txt'' \<notin> files example_world
   \<and> (\<exists>w'. uploadFile example_env ''nonexistent.txt'' ''remote'' example_uploader example_world =
            (Inl (runtime_error ''Local file does not exist: nonexistent.txt''),
             example_uploader, w')
          \<and> performs w' = [] \<and> easy_inits w' = 0 \<and> slept w' = [] \<and> files w' = {''b.sqlite''})"
proof -
  have h: "''nonexistent.txt'' \<notin> files example_world"
    by (simp add: example_world_def)
  show ?thesis
    using h C5_uploadFile_missing_file [OF h, of example_env "''remote''" example_uploader]
    by (simp add: example_world_def)
qed

lemma uploadFile_spec:
  assumes "localFile \<in> files w" and "1 \<le> maxRetries u"
    and "\<forall>k. 1 \<le> k \<and> k \<le> maxRetries u \<longrightarrow> fopen_ok e k \<and> easy_init_ok e k"
    and "st = (\<lambda>k. fst (curl_easy_perform e (progressCb u) k
                 (setopts e u (buildUrl u remoteDir (path_filename localFile)) k) w))"
  shows "\<exists>n u' w'. 1 \<le> n \<and> n \<le> maxRetries u
     \<and> performs w' = performs w
          @ map (\<lambda>k. (k, setopts e u (buildUrl u remoteDir (path_filename localFile)) k, st k)) [1..n]
     \<and> (\<forall>k. 1 \<le> k \<and> k < n \<longrightarrow> st k \<noteq> CURLE_OK)
     \<and> slept w' = slept w @ map (\<lambda>k. 500 * 2 ^ nat (min (k - 1) 6)) [1..n - 1]
     \<and> easy_inits w' = easy_inits w + nat n
     \<and> uploadFile e localFile remoteDir u w =
          ((if st n = CURLE_OK then Inr ()
            else Inl (runtime_error (''FTP upload failed: '' @ curl_easy_strerror e (st n)))), u', w')
     \<and> (st n \<noteq> CURLE_OK \<longrightarrow>
          n = maxRetries u \<and> lastError u' = curl_easy_strerror e (st n)
          \<and> sum_list (drop (length (slept w)) (slept w'))
              = (\<Sum>k = 1..maxRetries u - 1. 500 * 2 ^ nat (min (k - 1) 6)))"
proof -
  let ?url = "buildUrl u remoteDir (path_filename localFile)"
  let ?u0 = "u\<lparr>lastError := []\<rparr>"
  let ?w1 = "log INFO (''Preparing to upload file: '' @ localFile @ '' to '' @ remoteDir) w"
  have eq: "uploadFile e localFile remoteDir u w
              = upload_loop e localFile (path_filename localFile) ?url 0 ?u0 ?w1"
    using assms(1) by (simp add: uploadFile_def Let_def)
  have p1: "maxRetries ?u0 = maxRetries u" by simp
  have p2: "0 < maxRetries u" using assms(2) by simp
  have p3: "\<forall>k. 0 < k \<and> k \<le> maxRetries u \<longrightarrow> fopen_ok e k \<and> easy_init_ok e k"
    using assms(3) by simp
  have p4: "\<And>k w'. fst (curl_easy_perform e (progressCb ?u0) k (setopts e ?u0 ?url k) w') = st k"
    unfolding assms(4) using perform_fst_indep by simp
  have p5: "\<And>k. setopts e ?u0 ?url k = setopts e u ?url k" by simp
  obtain n u' w' where
    n: "0 < n" "n \<le> maxRetries u"
    and fails: "\<forall>k. 0 < k \<and> k < n \<longrightarrow> st k \<noteq> CURLE_OK"
    and res: "upload_loop e localFile (path_filename localFile) ?url 0 ?u0 ?w1 =
          ((if st n = CURLE_OK then Inr ()
            else Inl (runtime_error (''FTP upload failed: '' @ curl_easy_strerror e (st n)))), u', w')"
    and last: "st n \<noteq> CURLE_OK \<longrightarrow> n = maxRetries u \<and> lastError u' = curl_easy_strerror e (st n)"
    and tr: "performs w' = performs ?w1 @ map (\<lambda>k. (k, setopts e u ?url k, st k)) [0 + 1..n]"
    and sl: "slept w' = slept ?w1 @ map (\<lambda>k. 500 * 2 ^ nat (min (k - 1) 6)) [0 + 1..n - 1]"
    and ei: "easy_inits w' = easy_inits ?w1 + nat (n - 0)"
    using upload_loop_spec [OF p1 p2 p3 p4 p5, of localFile "path_filename localFile" ?w1]
    by blast
  have a: "1 \<le> n" using n by simp
  have fails': "\<forall>k. 1 \<le> k \<and> k < n \<longrightarrow> st k \<noteq> CURLE_OK" using fails by simp
  have tr': "performs w' = performs w @ map (\<lambda>k. (k, setopts e u ?url k, st k)) [1..n]"
    using tr by simp
  have sl': "slept w' = slept w @ map (\<lambda>k. 500 * 2 ^ nat (min (k - 1) 6)) [1..n - 1]"
    using sl by simp
  have ei': "easy_inits w' = easy_inits w + nat n" using ei by simp
  have res': "uploadFile e localFile remoteDir u w =
          ((if st n = CURLE_OK then Inr ()
            else Inl (runtime_error (''FTP upload failed: '' @ curl_easy_strerror e (st n)))), u', w')"
    using eq res by simp
  have total: "sum_list (drop (length (slept w)) (slept w'))
                 = (\<Sum>k = 1..n - 1. 500 * 2 ^ nat (min (k - 1) 6))"
    unfolding sl' by (simp add: interv_sum_list_conv_sum_set_int)
  have last': "st n \<noteq> CURLE_OK \<longrightarrow>
          n = maxRetries u \<and> lastError u' = curl_easy_strerror e (st n)
          \<and> sum_list (drop (length (slept w)) (slept w'))
              = (\<Sum>k = 1..maxRetries u - 1. 500 * 2 ^ nat (min (k - 1) 6))"
    using last total by auto
  show ?thesis
    using a n(2) tr' fails' sl' ei' res' last' by blast
qed



text \<open>
  Claim C1. Let the local file exist, the retry limit be at least 1 and the file and the
  handle open on every attempt, and let \<open>st k\<close> be the status the transfer primitive
  returns on attempt \<open>k\<close>. Then \<open>uploadFile\<close> performs the attempts \<open>1, \<dots>, n\<close> for some
  \<open>n\<close> up to the limit, every attempt before \<open>n\<close> has a non-success status, and after each
  of them it sleeps \<open>500 * 2^min(k - 1, 6)\<close> milliseconds, so nothing is slept after
  attempt \<open>n\<close>. If attempt \<open>n\<close> succeeds the call returns; otherwise \<open>n\<close> is the limit, the
  call throws with the error text of that last status, and the sleeps add up to the sum
  over \<open>k = 1, \<dots>, limit - 1\<close>.
\<close>

theorem C1_uploadFile_retry_backoff:
  assumes "localFile \<in> files w" and "1 \<le> maxRetries u"
    and "\<forall>k. 1 \<le> k \<and> k \<le> maxRetries u \<longrightarrow> fopen_ok e k \<and> easy_init_ok e k"
    and "st = (\<lambda>k. fst (curl_easy_perform e (progressCb u) k
                 (setopts e u (buildUrl u remoteDir (path_filename localFile)) k) w))"
  shows "\<exists>n u' w'. 1 \<le> n \<and> n \<le> maxRetries u
     \<and> performs w' = performs w
          @ map (\<lambda>k. (k, setopts e u (buildUrl u remoteDir (path_filename localFile)) k, st k)) [1..n]
     \<and> (\<forall>k. 1 \<le> k \<and> k < n \<longrightarrow> st k \<noteq> CURLE_OK)
     \<and> slept w' = slept w @ map (\<lambda>k. 500 * 2 ^ nat (min (k - 1) 6)) [1..n - 1]
     \<and> easy_inits w' = easy_inits w + nat n
     \<and> uploadFile e localFile remoteDir u w =
          ((if st n = CURLE_OK then Inr ()
            else Inl (runtime_error (''FTP upload failed: '' @ curl_easy_strerror e (st n)))), u', w')
     \<and> (st n \<noteq> CURLE_OK \<longrightarrow>
          n = maxRetries u \<and> lastError u' = curl_easy_strerror e (st n)
          \<and> sum_list (drop (length (slept w)) (slept w'))
              = (\<Sum>k = 1..maxRetries u - 1. 500 * 2 ^ nat (min (k - 1) 6)))"
  using assms by (rule uploadFile_spec)

text \<open>Limit 3, first attempt refused, second successful: two attempts, one sleep of 500 ms.\<close>

theorem C1_uploadFile_retry_backoff_witness:
  "fst (uploadFile example_env ''b.sqlite'' ''dir'' example_uploader example_world) = Inr ()
   \<and> slept (snd (snd (uploadFile example_env ''b.sqlite'' ''dir'' example_uploader example_world)))
       = [500]
   \<and> map fst (performs (snd (snd
         (uploadFile example_env ''b.sqlite'' ''dir'' example_uploader example_world)))) = [1, 2]
   \<and> map (snd \<circ> snd) (performs (snd (snd
         (uploadFile example_env ''b.sqlite'' ''dir'' example_uploader example_world)))) = [7, 0]"
proof -
  define st where "st = (\<lambda>k. fst (curl_easy_perform example_env (progressCb example_uploader) k
                 (setopts example_env example_uploader
                    (buildUrl example_uploader ''dir'' (path_filename ''b.sqlite'')) k)
                 example_world))"
  have h1: "''b.sqlite'' \<in> files example_world" by (simp add: example_world_def)
  have h2: "1 \<le> maxRetries example_uploader" by (simp add: example_uploader_def)
  have h3: "\<forall>k. 1 \<le> k \<and> k \<le> maxRetries example_uploader
              \<longrightarrow> fopen_ok example_env k \<and> easy_init_ok example_env k"
    by (simp add: example_env_def)
  have st: "st k = (if k = 2 then 0 else 7)" for k
    by (simp add: st_def curl_easy_perform_def setopts_def example_env_def example_uploader_def
        writeCallback_def Let_def)
  obtain n u' w' where
    n: "1 \<le> n" "n \<le> maxRetries example_uploader"
    and tr: "performs w' = performs example_world
          @ map (\<lambda>k. (k, setopts example_env example_uploader
                    (buildUrl example_uploader ''dir'' (path_filename ''b.sqlite'')) k, st k)) [1..n]"
    and fails: "\<forall>k. 1 \<le> k \<and> k < n \<longrightarrow> st k \<noteq> CURLE_OK"
    and sl: "slept w' = slept example_world @ map (\<lambda>k. 500 * 2 ^ nat (min (k - 1) 6)) [1..n - 1]"
    and res: "uploadFile example_env ''b.sqlite'' ''dir'' example_uploader example_world =
          ((if st n = CURLE_OK then Inr ()
            else Inl (runtime_error (''FTP upload failed: ''
                   @ curl_easy_strerror example_env (st n)))), u', w')"
    and last: "st n \<noteq> CURLE_OK \<longrightarrow> n = maxRetries example_uploader"
    using C1_uploadFile_retry_backoff [OF h1 h2 h3 st_def] by blast
  have "n = 1 \<or> n = 2 \<or> n = 3" using n by (simp add: example_uploader_def) arith
  moreover have "n \<noteq> 1" using last st [of 1] by (auto simp: CURLE_OK_def example_uploader_def)
  moreover have "n \<noteq> 3" using fails st [of 2] by (auto simp: CURLE_OK_def)
  ultimately have n2: "n = 2" by blast
  have l2: "[1..2::int] = [1, 2]" by (simp add: upto.simps)
  have l1: "[1..1::int] = [1]" by (simp add: upto.simps)
  show ?thesis
    unfolding res using tr sl
    by (simp add: n2 st CURLE_OK_def example_world_def l1 l2)
qed

lemma deliver_aborts:
  "Progress a \<in> set es \<Longrightarrow> isl (fst (cb a)) \<Longrightarrow> fst (deliver (Some cb) True es w)"
proof (induction es arbitrary: w)
  case Nil
  then show ?case by simp
next
  case (Cons ev es)
  show ?case
  proof (cases ev)
    case (ServerData c)
    then show ?thesis using Cons by simp
  next
    case (Progress b)
    show ?thesis
    proof (cases "isl (fst (cb b))")
      case True
      then show ?thesis using Progress by (simp add: case_prod_beta curlProgress_fst)
    next
      case False
      then have "Progress a \<in> set es" using Cons.prems Progress by auto
      then show ?thesis
        using Progress False Cons.IH Cons.prems(2) by (simp add: case_prod_beta curlProgress_fst)
    qed
  qed
qed

lemma perform_aborted:
  assumes "progressCb u = Some cb" and "Progress a \<in> set (curl_events e k)" and "isl (fst (cb a))"
  shows "fst (curl_easy_perform e (progressCb u) k (setopts e u url k) w) = CURLE_ABORTED_BY_CALLBACK"
  using deliver_aborts [of a "curl_events e k" cb w] assms
  by (simp add: curl_easy_perform_def setopts_def case_prod_beta Let_def)

text \<open>
  Claim C7. Every transfer that \<open>uploadFile\<close> performs has \<open>USE_SSL\<close> set to
  \<open>CURLUSESSL_ALL\<close>, with peer and host verification following the flag; and changing the
  flag changes those two options of the handle and nothing else, the URL included.
\<close>

theorem C7_encryption_on_every_attempt:
  "(\<exists>T r u' w'. uploadFile e lf rd u w = (r, u', w') \<and> performs w' = performs w @ T
      \<and> (\<forall>t\<in>set T. opt_use_ssl (fst (snd t)) = CURLUSESSL_ALL
             \<and> opt_ssl_verifypeer (fst (snd t)) = (if sslVerify u then 1 else 0)
             \<and> opt_ssl_verifyhost (fst (snd t)) = (if sslVerify u then 2 else 0)))
   \<and> setopts e (u\<lparr>sslVerify := b\<rparr>) url k
       = (setopts e u url k)\<lparr>opt_ssl_verifypeer := (if b then 1 else 0),
                               opt_ssl_verifyhost := (if b then 2 else 0)\<rparr>
   \<and> buildUrl (u\<lparr>sslVerify := b\<rparr>) rd f = buildUrl u rd f"
proof -
  obtain T r u' w' where
    eq: "uploadFile e lf rd u w = (r, u', w')" and tr: "performs w' = performs w @ T"
    and sh: "\<forall>t\<in>set T. 0 < fst t
           \<and> t = (fst t, setopts e u (buildUrl u rd (path_filename lf)) (fst t),
                  fst (curl_easy_perform e (progressCb u) (fst t)
                        (setopts e u (buildUrl u rd (path_filename lf)) (fst t)) w))"
    using uploadFile_trace [of e lf rd u w w] by blast
  have "\<forall>t\<in>set T. opt_use_ssl (fst (snd t)) = CURLUSESSL_ALL
             \<and> opt_ssl_verifypeer (fst (snd t)) = (if sslVerify u then 1 else 0)
             \<and> opt_ssl_verifyhost (fst (snd t)) = (if sslVerify u then 2 else 0)"
  proof
    fix t assume "t \<in> set T"
    then have "fst (snd t) = setopts e u (buildUrl u rd (path_filename lf)) (fst t)"
      using sh by (metis fst_conv snd_conv)
    then show "opt_use_ssl (fst (snd t)) = CURLUSESSL_ALL
             \<and> opt_ssl_verifypeer (fst (snd t)) = (if sslVerify u then 1 else 0)
             \<and> opt_ssl_verifyhost (fst (snd t)) = (if sslVerify u then 2 else 0)"
      by (simp add: setopts_def)
  qed
  then have 1: "\<exists>T r u' w'. uploadFile e lf rd u w = (r, u', w') \<and> performs w' = performs w @ T
      \<and> (\<forall>t\<in>set T. opt_use_ssl (fst (snd t)) = CURLUSESSL_ALL
             \<and> opt_ssl_verifypeer (fst (snd t)) = (if sslVerify u then 1 else 0)
             \<and> opt_ssl_verifyhost (fst (snd t)) = (if sslVerify u then 2 else 0))"
    using eq tr by blast
  have 2: "setopts e (u\<lparr>sslVerify := b\<rparr>) url k
       = (setopts e u url k)\<lparr>opt_ssl_verifypeer := (if b then 1 else 0),
                               opt_ssl_verifyhost := (if b then 2 else 0)\<rparr>"
    by (simp add: setopts_def)
  have 3: "buildUrl (u\<lparr>sslVerify := b\<rparr>) rd f = buildUrl u rd f"
    by (simp add: buildUrl_def)
  show ?thesis using 1 2 3 by blast
qed

text \<open>With verification switched off both attempts of the example still require TLS.\<close>

theorem C7_encryption_on_every_attempt_witness:
  "length (performs (snd (snd (uploadFile example_env ''b.sqlite'' ''dir''
             (example_uploader\<lparr>sslVerify := False\<rparr>) example_world)))) = 2
   \<and> list_all (\<lambda>t. opt_use_ssl (fst (snd t)) = 3 \<and> opt_ssl_verifypeer (fst (snd t)) = 0
                  \<and> opt_ssl_verifyhost (fst (snd t)) = 0)
       (performs (snd (snd (uploadFile example_env ''b.sqlite'' ''dir''
             (example_uploader\<lparr>sslVerify := False\<rparr>) example_world))))"
proof -
  let ?u = "example_uploader\<lparr>sslVerify := False\<rparr>"
  have len: "length (performs (snd (snd (uploadFile example_env ''b.sqlite'' ''dir'' ?u example_world)))) = 2"
    by (simp add: uploadFile_def upload_loop.simps example_env_def example_uploader_def
        example_world_def Let_def curl_easy_perform_def setopts_def writeCallback_def log_def
        sleepForBackoff_def CURLE_OK_def)
  obtain T r u' w' where
    eq: "uploadFile example_env ''b.sqlite'' ''dir'' ?u example_world = (r, u', w')"
    and tr: "performs w' = performs example_world @ T"
    and sh: "\<forall>t\<in>set T. opt_use_ssl (fst (snd t)) = CURLUSESSL_ALL
             \<and> opt_ssl_verifypeer (fst (snd t)) = (if sslVerify ?u then 1 else 0)
             \<and> opt_ssl_verifyhost (fst (snd t)) = (if sslVerify ?u then 2 else 0)"
    using C7_encryption_on_every_attempt [of example_env "''b.sqlite''" "''dir''" ?u example_world]
    by blast
  have T: "performs w' = T" using tr by (simp add: example_world_def)
  have "list_all (\<lambda>t. opt_use_ssl (fst (snd t)) = 3 \<and> opt_ssl_verifypeer (fst (snd t)) = 0
                  \<and> opt_ssl_verifyhost (fst (snd t)) = 0) T"
    using sh by (simp add: list_all_iff CURLUSESSL_ALL_def)
  then show ?thesis using len by (simp add: eq T)
qed

text \<open>
  Claim C10. The progress bridge returns a number in every case: 1 when a callback is
  set and throws, 0 otherwise. An attempt during which the callback throws is reported
  by the transfer as aborted by callback, which is not success, and whatever
  \<open>uploadFile\<close> throws is one of its own four errors, never what the callback threw.
\<close>

theorem C10_progress_exception_contained:
  "fst (curlProgress clientp a w)
     = (case clientp of None \<Rightarrow> 0 | Some cb \<Rightarrow> if isl (fst (cb a)) then 1 else 0)
   \<and> CURLE_ABORTED_BY_CALLBACK \<noteq> CURLE_OK
   \<and> (\<exists>T r u' w'. uploadFile e lf rd u w = (r, u', w')
        \<and> (r = Inr () \<or> r = Inl (runtime_error (''Local file does not exist: '' @ lf))
             \<or> r = Inl (runtime_error (''Failed to open local file: '' @ lf))
             \<or> r = Inl (runtime_error ''Failed to initialize curl'')
             \<or> r = Inl (runtime_error (''FTP upload failed: '' @ lastError u')))
        \<and> performs w' = performs w @ T
        \<and> (\<forall>t\<in>set T.
              (\<exists>cb x. progressCb u = Some cb \<and> Progress x \<in> set (curl_events e (fst t))
                       \<and> isl (fst (cb x)))
              \<longrightarrow> snd (snd t) = CURLE_ABORTED_BY_CALLBACK))"
proof -
  obtain T r u' w' where
    eq: "uploadFile e lf rd u w = (r, u', w')" and tr: "performs w' = performs w @ T"
    and sh: "\<forall>t\<in>set T. 0 < fst t
           \<and> t = (fst t, setopts e u (buildUrl u rd (path_filename lf)) (fst t),
                  fst (curl_easy_perform e (progressCb u) (fst t)
                        (setopts e u (buildUrl u rd (path_filename lf)) (fst t)) w))"
    and rr: "r = Inr () \<or> r = Inl (runtime_error (''Local file does not exist: '' @ lf))
             \<or> r = Inl (runtime_error (''Failed to open local file: '' @ lf))
             \<or> r = Inl (runtime_error ''Failed to initialize curl'')
             \<or> r = Inl (runtime_error (''FTP upload failed: '' @ lastError u'))"
    using uploadFile_trace [of e lf rd u w w] by blast
  have ab: "\<forall>t\<in>set T.
              (\<exists>cb x. progressCb u = Some cb \<and> Progress x \<in> set (curl_events e (fst t))
                       \<and> isl (fst (cb x)))
              \<longrightarrow> snd (snd t) = CURLE_ABORTED_BY_CALLBACK"
  proof (intro ballI impI)
    fix t assume t: "t \<in> set T"
      and "\<exists>cb x. progressCb u = Some cb \<and> Progress x \<in> set (curl_events e (fst t))
                       \<and> isl (fst (cb x))"
    then obtain cb x where c: "progressCb u = Some cb" "Progress x \<in> set (curl_events e (fst t))"
      "isl (fst (cb x))" by blast
    have "snd (snd t) = fst (curl_easy_perform e (progressCb u) (fst t)
                        (setopts e u (buildUrl u rd (path_filename lf)) (fst t)) w)"
      using sh t by (metis snd_conv)
    then show "snd (snd t) = CURLE_ABORTED_BY_CALLBACK"
      using perform_aborted [OF c] by simp
  qed
  have 1: "fst (curlProgress clientp a w)
     = (case clientp of None \<Rightarrow> 0 | Some cb \<Rightarrow> if isl (fst (cb a)) then 1 else 0)"
    by (rule curlProgress_fst)
  have 2: "CURLE_ABORTED_BY_CALLBACK \<noteq> CURLE_OK"
    by (simp add: CURLE_ABORTED_BY_CALLBACK_def CURLE_OK_def)
  show ?thesis using 1 2 eq rr tr ab by blast
qed


text \<open>A callback that always throws: the first attempt is aborted, the second has no
  progress event and succeeds.\<close>

theorem C10_progress_exception_contained_witness:
  "fst (hd (performs (snd (snd (uploadFile example_env ''b.sqlite'' ''dir''
        (example_uploader\<lparr>progressCb := Some (\<lambda>x. (Inl foreign_exception, []))\<rparr>)
        example_world))))) = 1
   \<and> snd (snd (hd (performs (snd (snd (uploadFile example_env ''b.sqlite'' ''dir''
        (example_uploader\<lparr>progressCb := Some (\<lambda>x. (Inl foreign_exception, []))\<rparr>)
        example_world)))))) = CURLE_ABORTED_BY_CALLBACK
   \<and> fst (uploadFile example_env ''b.sqlite'' ''dir''
        (example_uploader\<lparr>progressCb := Some (\<lambda>x. (Inl foreign_exception, []))\<rparr>)
        example_world) = Inr ()"
proof -
  let ?cb = "\<lambda>x::xferinfo. (Inl foreign_exception :: exn + unit, [] :: (Level \<times> string) list)"
  let ?u = "example_uploader\<lparr>progressCb := Some ?cb\<rparr>"
  have ev: "map fst (performs (snd (snd (uploadFile example_env ''b.sqlite'' ''dir'' ?u example_world))))
              = [1, 2]"
    "fst (uploadFile example_env ''b.sqlite'' ''dir'' ?u example_world) = Inr ()"
    by (simp_all add: uploadFile_def upload_loop.simps example_env_def example_uploader_def
        example_world_def Let_def curl_easy_perform_def setopts_def writeCallback_def log_def
        sleepForBackoff_def CURLE_OK_def CURLE_ABORTED_BY_CALLBACK_def curlProgress_def)
  obtain T r u' w' where
    eq: "uploadFile example_env ''b.sqlite'' ''dir'' ?u example_world = (r, u', w')"
    and tr: "performs w' = performs example_world @ T"
    and ab: "\<forall>t\<in>set T.
              (\<exists>cb x. progressCb ?u = Some cb \<and> Progress x \<in> set (curl_events example_env (fst t))
                       \<and> isl (fst (cb x)))
              \<longrightarrow> snd (snd t) = CURLE_ABORTED_BY_CALLBACK"
    using C10_progress_exception_contained [where e = example_env and lf = "''b.sqlite''"
        and rd = "''dir''" and u = ?u and w = example_world]
    by blast
  have T: "performs w' = T" using tr by (simp add: example_world_def)
  have m: "map fst T = [1, 2]" using ev(1) by (simp add: eq T)
  then have ne: "T \<noteq> []" by auto
  have h1: "fst (hd T) = 1" using m ne by (cases T) auto
  have "progressCb ?u = Some ?cb \<and> Progress (0, 0, 4096, 1024) \<in> set (curl_events example_env (fst (hd T)))
          \<and> isl (fst (?cb (0, 0, 4096, 1024)))"
    by (simp add: h1 example_env_def)
  then have "snd (snd (hd T)) = CURLE_ABORTED_BY_CALLBACK"
    using ab ne by (metis hd_in_set)
  then show ?thesis using h1 ev(2) by (simp add: eq T)
qed

subsection \<open>The snapshot engine\<close>

lemma backup_loop_run:
  assumes "\<forall>j<d. backup_step e (i + j) 1024 \<in> {SQLITE_OK, SQLITE_BUSY, SQLITE_LOCKED}"
    and "backup_step e (i + d) 1024 \<notin> {SQLITE_OK, SQLITE_BUSY, SQLITE_LOCKED}"
  shows "\<exists>w'. backup_loop e i w = Some (backup_step e (i + d) 1024, w')
     \<and> step_calls w' = step_calls w @ replicate (Suc d) 1024
     \<and> slept w' = slept w @ replicate (length (filter
           (\<lambda>j. backup_step e j 1024 \<in> {SQLITE_BUSY, SQLITE_LOCKED}) [i..<i + d])) 50
     \<and> files w' = files w \<and> removes w' = removes w \<and> minLevel w' = minLevel w
     \<and> entries w' = entries w \<and> performs w' = performs w \<and> easy_inits w' = easy_inits w"
  using assms
proof (induction d arbitrary: i w)
  case 0
  then show ?case
    by (subst backup_loop.simps) (simp add: Let_def)
next
  case (Suc d)
  define rc where "rc = backup_step e i 1024"
  define w2 where "w2 = (if rc = SQLITE_BUSY \<or> rc = SQLITE_LOCKED
                         then sqlite3_sleep 50 (w\<lparr>step_calls := step_calls w @ [1024]\<rparr>)
                         else w\<lparr>step_calls := step_calls w @ [1024]\<rparr>)"
  have again: "rc = SQLITE_OK \<or> rc = SQLITE_BUSY \<or> rc = SQLITE_LOCKED"
    using Suc.prems(1) [rule_format, of 0] by (simp add: rc_def)
  have eq: "backup_loop e i w = backup_loop e (Suc i) w2"
    using again by (subst backup_loop.simps) (simp add: Let_def rc_def w2_def)
  have p1: "\<forall>j<d. backup_step e (Suc i + j) 1024 \<in> {SQLITE_OK, SQLITE_BUSY, SQLITE_LOCKED}"
    using Suc.prems(1) by (metis Suc_less_eq add_Suc_right add_Suc)
  have p2: "backup_step e (Suc i + d) 1024 \<notin> {SQLITE_OK, SQLITE_BUSY, SQLITE_LOCKED}"
    using Suc.prems(2) by simp
  obtain w' where
    r: "backup_loop e (Suc i) w2 = Some (backup_step e (Suc i + d) 1024, w')"
    and sc: "step_calls w' = step_calls w2 @ replicate (Suc d) 1024"
    and sl: "slept w' = slept w2 @ replicate (length (filter
           (\<lambda>j. backup_step e j 1024 \<in> {SQLITE_BUSY, SQLITE_LOCKED}) [Suc i..<Suc i + d])) 50"
    and fr: "files w' = files w2" "removes w' = removes w2" "minLevel w' = minLevel w2"
      "entries w' = entries w2" "performs w' = performs w2" "easy_inits w' = easy_inits w2"
    using Suc.IH [OF p1 p2, of w2] by blast
  have f2: "files w2 = files w" "removes w2 = removes w" "minLevel w2 = minLevel w"
    "entries w2 = entries w" "performs w2 = performs w" "easy_inits w2 = easy_inits w"
    "step_calls w2 = step_calls w @ [1024]"
    "slept w2 = slept w @ (if rc \<in> {SQLITE_BUSY, SQLITE_LOCKED} then [50] else [])"
    by (simp_all add: w2_def sqlite3_sleep_def)
  have up: "[i..<i + Suc d] = i # [Suc i..<Suc i + d]"
    by (simp add: upt_conv_Cons)
  have r': "backup_loop e i w = Some (backup_step e (i + Suc d) 1024, w')"
    using eq r by simp
  have sc': "step_calls w' = step_calls w @ replicate (Suc (Suc d)) 1024"
    using sc f2 by simp
  have sl': "slept w' = slept w @ replicate (length (filter
           (\<lambda>j. backup_step e j 1024 \<in> {SQLITE_BUSY, SQLITE_LOCKED}) [i..<i + Suc d])) 50"
    unfolding up using sl f2 by (simp add: rc_def)
  have fr': "files w' = files w" "removes w' = removes w" "minLevel w' = minLevel w"
      "entries w' = entries w" "performs w' = performs w" "easy_inits w' = easy_inits w"
    using fr f2 by simp_all
  show ?case using r' sc' sl' fr' by blast
qed

lemma backup_loop_Some_terminal:
  assumes "backup_loop e i w = Some y"
  shows "\<exists>n. backup_step e n 1024 \<notin> {SQLITE_OK, SQLITE_BUSY, SQLITE_LOCKED}"
proof (rule backup_loop.raw_induct
    [where P = "\<lambda>e i w y. \<exists>n. backup_step e n 1024 \<notin> {SQLITE_OK, SQLITE_BUSY, SQLITE_LOCKED}",
      OF _ assms])
  fix f :: "env \<Rightarrow> nat \<Rightarrow> world \<Rightarrow> (int \<times> world) option"
  fix e i w y
  assume IH: "\<And>e i w y. f e i w = Some y \<Longrightarrow>
                \<exists>n. backup_step e n 1024 \<notin> {SQLITE_OK, SQLITE_BUSY, SQLITE_LOCKED}"
  assume body: "(let rc = backup_step e i 1024;
          w1 = w\<lparr>step_calls := step_calls w @ [1024]\<rparr>;
          w2 = if rc = SQLITE_BUSY \<or> rc = SQLITE_LOCKED then sqlite3_sleep 50 w1 else w1
      in if rc = SQLITE_OK \<or> rc = SQLITE_BUSY \<or> rc = SQLITE_LOCKED
         then f e (Suc i) w2 else Some (rc, w2)) = Some y"
  show "\<exists>n. backup_step e n 1024 \<notin> {SQLITE_OK, SQLITE_BUSY, SQLITE_LOCKED}"
  proof (cases "backup_step e i 1024 \<in> {SQLITE_OK, SQLITE_BUSY, SQLITE_LOCKED}")
    case True
    then have "f e (Suc i) (if backup_step e i 1024 = SQLITE_BUSY \<or> backup_step e i 1024 = SQLITE_LOCKED
                 then sqlite3_sleep 50 (w\<lparr>step_calls := step_calls w @ [1024]\<rparr>)
                 else w\<lparr>step_calls := step_calls w @ [1024]\<rparr>) = Some y"
      using body by (simp add: Let_def)
    then show ?thesis by (rule IH)
  next
    case False
    then show ?thesis by blast
  qed
qed


lemma backup_loop_least:
  assumes "\<exists>n. backup_step e n 1024 \<notin> {SQLITE_OK, SQLITE_BUSY, SQLITE_LOCKED}"
  shows "\<exists>w'. backup_loop e 0 w
            = Some (backup_step e (LEAST n. backup_step e n 1024
                                     \<notin> {SQLITE_OK, SQLITE_BUSY, SQLITE_LOCKED}) 1024, w')
     \<and> backup_step e (LEAST n. backup_step e n 1024 \<notin> {SQLITE_OK, SQLITE_BUSY, SQLITE_LOCKED}) 1024
           \<notin> {SQLITE_OK, SQLITE_BUSY, SQLITE_LOCKED}
     \<and> step_calls w' = step_calls w @ replicate
           (Suc (LEAST n. backup_step e n 1024 \<notin> {SQLITE_OK, SQLITE_BUSY, SQLITE_LOCKED})) 1024
     \<and> slept w' = slept w @ replicate (length (filter
           (\<lambda>j. backup_step e j 1024 \<in> {SQLITE_BUSY, SQLITE_LOCKED})
           [0..<LEAST n. backup_step e n 1024 \<notin> {SQLITE_OK, SQLITE_BUSY, SQLITE_LOCKED}])) 50
     \<and> files w' = files w \<and> removes w' = removes w \<and> minLevel w' = minLevel w
     \<and> entries w' = entries w \<and> performs w' = performs w \<and> easy_inits w' = easy_inits w"
proof -
  define N where "N = (LEAST n. backup_step e n 1024 \<notin> {SQLITE_OK, SQLITE_BUSY, SQLITE_LOCKED})"
  have t: "backup_step e N 1024 \<notin> {SQLITE_OK, SQLITE_BUSY, SQLITE_LOCKED}"
    unfolding N_def using assms by (rule LeastI_ex)
  have b: "\<forall>j<N. backup_step e (0 + j) 1024 \<in> {SQLITE_OK, SQLITE_BUSY, SQLITE_LOCKED}"
  proof (intro allI impI)
    fix j assume "j < N"
    then have "\<not> backup_step e j 1024 \<notin> {SQLITE_OK, SQLITE_BUSY, SQLITE_LOCKED}"
      unfolding N_def by (rule not_less_Least)
    then show "backup_step e (0 + j) 1024 \<in> {SQLITE_OK, SQLITE_BUSY, SQLITE_LOCKED}" by simp
  qed
  have t0: "backup_step e (0 + N) 1024 \<notin> {SQLITE_OK, SQLITE_BUSY, SQLITE_LOCKED}"
    using t by simp
  show ?thesis
    using backup_loop_run [OF b t0, of w] t unfolding N_def [symmetric] by simp
qed

lemma dest_on_disk_frame [simp]:
  "removes (dest_on_disk e p w) = removes w" "minLevel (dest_on_disk e p w) = minLevel w"
  "entries (dest_on_disk e p w) = entries w" "performs (dest_on_disk e p w) = performs w"
  "easy_inits (dest_on_disk e p w) = easy_inits w" "slept (dest_on_disk e p w) = slept w"
  "step_calls (dest_on_disk e p w) = step_calls w"
  "files (dest_on_disk e p w) = (if dest_file_created e then insert p (files w) else files w)"
  by (simp_all add: dest_on_disk_def)

lemma backupToFile_spec:
  assumes "\<exists>n. backup_step e n 1024 \<notin> {SQLITE_OK, SQLITE_BUSY, SQLITE_LOCKED}"
  shows "\<exists>r w'. backupToFile e p w = Some (r, w')
     \<and> (r = Inr () \<or> (\<exists>msg. r = Inl (runtime_error msg)))
     \<and> files w' = (if dest_file_created e then insert p (files w) else files w)
     \<and> removes w' = removes w \<and> minLevel w' = minLevel w \<and> performs w' = performs w
     \<and> easy_inits w' = easy_inits w
     \<and> (dest_open e = None \<and> backup_init e = None \<longrightarrow>
          step_calls w' = step_calls w @ replicate
            (Suc (LEAST n. backup_step e n 1024 \<notin> {SQLITE_OK, SQLITE_BUSY, SQLITE_LOCKED})) 1024
        \<and> slept w' = slept w @ replicate (length (filter
             (\<lambda>j. backup_step e j 1024 \<in> {SQLITE_BUSY, SQLITE_LOCKED})
             [0..<LEAST n. backup_step e n 1024 \<notin> {SQLITE_OK, SQLITE_BUSY, SQLITE_LOCKED}])) 50
        \<and> ((r = Inr ()) =
             (backup_step e (LEAST n. backup_step e n 1024
                                \<notin> {SQLITE_OK, SQLITE_BUSY, SQLITE_LOCKED}) 1024 = SQLITE_DONE
              \<and> backup_finish e SQLITE_DONE = SQLITE_OK)))"
proof -
  define N where "N = (LEAST n. backup_step e n 1024 \<notin> {SQLITE_OK, SQLITE_BUSY, SQLITE_LOCKED})"
  define w1 where "w1 = log INFO (''Performing binary backup to file: '' @ p) w"
  obtain w2 where
    l: "backup_loop e 0 w1 = Some (backup_step e N 1024, w2)"
    and sc: "step_calls w2 = step_calls w1 @ replicate (Suc N) 1024"
    and sl: "slept w2 = slept w1 @ replicate (length (filter
           (\<lambda>j. backup_step e j 1024 \<in> {SQLITE_BUSY, SQLITE_LOCKED}) [0..<N])) 50"
    and fr: "files w2 = files w1" "removes w2 = removes w1" "minLevel w2 = minLevel w1"
      "performs w2 = performs w1" "easy_inits w2 = easy_inits w1"
    using backup_loop_least [OF assms, of w1] unfolding N_def [symmetric] by blast
  show ?thesis
  proof (cases "dest_open e")
    case (Some err)
    then show ?thesis
      by (simp add: backupToFile_def Let_def)
  next
    case None
    note op = None
    show ?thesis
    proof (cases "backup_init e")
      case (Some err)
      then show ?thesis using op
        by (simp add: backupToFile_def Let_def)
    next
      case None
      show ?thesis
      proof (cases "backup_step e N 1024 = SQLITE_DONE \<and> backup_finish e SQLITE_DONE = SQLITE_OK")
        case True
        have "backupToFile e p w = Some (Inr (),
                log INFO (''Binary backup completed successfully to: '' @ p) (dest_on_disk e p w2))"
          using op None l True by (simp add: backupToFile_def Let_def w1_def)
        then show ?thesis
          using sc sl fr True unfolding N_def [symmetric] by (simp add: w1_def)
      next
        case False
        have "backupToFile e p w = Some (Inl (runtime_error (''sqlite3_backup failed: '' @ dest_errmsg e)),
                dest_on_disk e p w2)"
          using op None l False by (auto simp: backupToFile_def Let_def w1_def)
        then show ?thesis
          using sc sl fr False unfolding N_def [symmetric] by (simp add: w1_def)
      qed
    qed
  qed
qed

lemma backupToFile_Some_terminal:
  assumes "dest_open e = None" and "backup_init e = None" and "backupToFile e p w = Some y"
  shows "\<exists>n. backup_step e n 1024 \<notin> {SQLITE_OK, SQLITE_BUSY, SQLITE_LOCKED}"
proof -
  have "\<exists>z. backup_loop e 0 (log INFO (''Performing binary backup to file: '' @ p) w) = Some z"
    using assms by (simp add: backupToFile_def Let_def split: option.splits)
  then show ?thesis using backup_loop_Some_terminal by blast
qed

text \<open>
  Claim C8. Every call of the page-copy primitive asks for 1024 pages. If the primitive
  ever reports a status other than ok, busy or locked, \<open>backupToFile\<close> returns: with the
  destination open and the backup initialised it has then called the primitive up to
  the first such status and no further, has slept 50 ms once for each busy or locked
  status before it (however many there were), and succeeds exactly when that status is
  done and \<open>sqlite3_backup_finish\<close>, which reports no error after done, reports none.
  Conversely a call that gets as far as the loop and returns has seen such a status.
\<close>

theorem C8_backup_copy_loop:
  "((\<exists>n. backup_step e n 1024 \<notin> {SQLITE_OK, SQLITE_BUSY, SQLITE_LOCKED}) \<longrightarrow>
      (\<exists>r w'. backupToFile e dumpFile w = Some (r, w')
         \<and> (dest_open e = None \<and> backup_init e = None \<longrightarrow>
              step_calls w' = step_calls w @ replicate
                (Suc (LEAST n. backup_step e n 1024 \<notin> {SQLITE_OK, SQLITE_BUSY, SQLITE_LOCKED})) 1024
            \<and> slept w' = slept w @ replicate (length (filter
                 (\<lambda>j. backup_step e j 1024 \<in> {SQLITE_BUSY, SQLITE_LOCKED})
                 [0..<LEAST n. backup_step e n 1024 \<notin> {SQLITE_OK, SQLITE_BUSY, SQLITE_LOCKED}])) 50
            \<and> ((r = Inr ()) =
                 (backup_step e (LEAST n. backup_step e n 1024
                                    \<notin> {SQLITE_OK, SQLITE_BUSY, SQLITE_LOCKED}) 1024 = SQLITE_DONE
                  \<and> backup_finish e SQLITE_DONE = SQLITE_OK)))))
   \<and> (dest_open e = None \<and> backup_init e = None \<and> (\<exists>y. backupToFile e dumpFile w = Some y) \<longrightarrow>
        (\<exists>n. backup_step e n 1024 \<notin> {SQLITE_OK, SQLITE_BUSY, SQLITE_LOCKED}))"
proof (intro conjI impI)
  assume t: "\<exists>n. backup_step e n 1024 \<notin> {SQLITE_OK, SQLITE_BUSY, SQLITE_LOCKED}"
  show "\<exists>r w'. backupToFile e dumpFile w = Some (r, w')
         \<and> (dest_open e = None \<and> backup_init e = None \<longrightarrow>
              step_calls w' = step_calls w @ replicate
                (Suc (LEAST n. backup_step e n 1024 \<notin> {SQLITE_OK, SQLITE_BUSY, SQLITE_LOCKED})) 1024
            \<and> slept w' = slept w @ replicate (length (filter
                 (\<lambda>j. backup_step e j 1024 \<in> {SQLITE_BUSY, SQLITE_LOCKED})
                 [0..<LEAST n. backup_step e n 1024 \<notin> {SQLITE_OK, SQLITE_BUSY, SQLITE_LOCKED}])) 50
            \<and> ((r = Inr ()) =
                 (backup_step e (LEAST n. backup_step e n 1024
                                    \<notin> {SQLITE_OK, SQLITE_BUSY, SQLITE_LOCKED}) 1024 = SQLITE_DONE
                  \<and> backup_finish e SQLITE_DONE = SQLITE_OK)))"
    using backupToFile_spec [OF t, of dumpFile w] by blast
next
  assume "dest_open e = None \<and> backup_init e = None \<and> (\<exists>y. backupToFile e dumpFile w = Some y)"
  then show "\<exists>n. backup_step e n 1024 \<notin> {SQLITE_OK, SQLITE_BUSY, SQLITE_LOCKED}"
    using backupToFile_Some_terminal by blast
qed


text \<open>One busy step, then done: two calls for 1024 pages, one sleep of 50 ms, success.\<close>

theorem C8_backup_copy_loop_witness:
  "(\<exists>n. backup_step example_env n 1024 \<notin> {SQLITE_OK, SQLITE_BUSY, SQLITE_LOCKED})
   \<and> dest_open example_env = None \<and> backup_init example_env = None
   \<and> (\<exists>w'. backupToFile example_env ''db_backup.sqlite'' example_world = Some (Inr (), w')
          \<and> step_calls w' = [1024, 1024] \<and> slept w' = [50])"
proof -
  have t: "\<exists>n. backup_step example_env n 1024 \<notin> {SQLITE_OK, SQLITE_BUSY, SQLITE_LOCKED}"
    by (rule exI [of _ 1])
      (simp add: example_env_def SQLITE_OK_def SQLITE_BUSY_def SQLITE_LOCKED_def)
  have o: "dest_open example_env = None" "backup_init example_env = None"
    by (simp_all add: example_env_def)
  have N: "(LEAST n. backup_step example_env n 1024 \<notin> {SQLITE_OK, SQLITE_BUSY, SQLITE_LOCKED}) = 1"
    by (rule Least_equality)
      (auto simp: example_env_def SQLITE_OK_def SQLITE_BUSY_def SQLITE_LOCKED_def
        split: if_splits)
  obtain r w' where
    eq: "backupToFile example_env ''db_backup.sqlite'' example_world = Some (r, w')"
    and sc: "step_calls w' = step_calls example_world @ replicate (Suc 1) 1024"
    and sl: "slept w' = slept example_world @ replicate (length (filter
                 (\<lambda>j. backup_step example_env j 1024 \<in> {SQLITE_BUSY, SQLITE_LOCKED}) [0..<1])) 50"
    and ok: "(r = Inr ()) = (backup_step example_env 1 1024 = SQLITE_DONE
                  \<and> backup_finish example_env SQLITE_DONE = SQLITE_OK)"
    using C8_backup_copy_loop [of example_env "''db_backup.sqlite''" example_world] t o
    unfolding N by blast
  have r: "r = Inr ()"
    using ok by (simp add: example_env_def SQLITE_DONE_def SQLITE_OK_def)
  have sc': "step_calls w' = [1024, 1024]"
    using sc by (simp add: example_world_def)
  have sl': "slept w' = [50]"
    using sl by (simp add: example_world_def example_env_def SQLITE_BUSY_def)
  show ?thesis using t o eq r sc' sl' by blast
qed

subsection \<open>The orchestrator\<close>

lemma log_ERROR_entries: "entries (log ERROR msg w) = entries w @ [(ERROR, msg)]"
  by (cases "minLevel w") (simp_all add: log_def)

lemma setLevel_frame [simp]:
  "files (setLevel l w) = files w" "removes (setLevel l w) = removes w"
  "performs (setLevel l w) = performs w" "easy_inits (setLevel l w) = easy_inits w"
  "slept (setLevel l w) = slept w" "step_calls (setLevel l w) = step_calls w"
  by (simp_all add: setLevel_def)

lemma SqliteHelper_dtor_frame [simp]:
  "files (SqliteHelper_dtor db w) = files w" "removes (SqliteHelper_dtor db w) = removes w"
  "performs (SqliteHelper_dtor db w) = performs w"
  "easy_inits (SqliteHelper_dtor db w) = easy_inits w"
  "slept (SqliteHelper_dtor db w) = slept w" "step_calls (SqliteHelper_dtor db w) = step_calls w"
  by (simp_all add: SqliteHelper_dtor_def)

lemma FtpUploader_dtor_frame [simp]:
  "files (FtpUploader_dtor u w) = files w" "removes (FtpUploader_dtor u w) = removes w"
  "performs (FtpUploader_dtor u w) = performs w"
  "easy_inits (FtpUploader_dtor u w) = easy_inits w"
  "slept (FtpUploader_dtor u w) = slept w" "step_calls (FtpUploader_dtor u w) = step_calls w"
  by (simp_all add: FtpUploader_dtor_def)

lemma TempFileRemover_dtor_frame [simp]:
  "removes (TempFileRemover_dtor e \<lparr>path_field = p, active_field = True\<rparr> w)
     = (if p = [] then removes w else removes w @ [p])"
  "files (TempFileRemover_dtor e \<lparr>path_field = p, active_field = True\<rparr> w)
     = (if p = [] \<or> remove_fails e then files w else files w - {p})"
  "performs (TempFileRemover_dtor e r w) = performs w"
  "easy_inits (TempFileRemover_dtor e r w) = easy_inits w"
  "slept (TempFileRemover_dtor e r w) = slept w"
  "step_calls (TempFileRemover_dtor e r w) = step_calls w"
  by (simp_all add: TempFileRemover_dtor_def Let_def)

lemma make_uploader_frame [simp]:
  "files (snd (make_uploader e m w)) = files w" "removes (snd (make_uploader e m w)) = removes w"
  "performs (snd (make_uploader e m w)) = performs w"
  "easy_inits (snd (make_uploader e m w)) = easy_inits w"
  "slept (snd (make_uploader e m w)) = slept w"
  "step_calls (snd (make_uploader e m w)) = step_calls w"
  by (simp_all add: make_uploader_def FtpUploader_ctor_def Let_def)

lemma createTable_frame [simp]:
  "files (snd (createTable e w)) = files w" "removes (snd (createTable e w)) = removes w"
  by (simp_all add: createTable_def Let_def split: option.splits)

lemma insertRandomRows_frame [simp]:
  "files (snd (insertRandomRows e n w)) = files w"
  "removes (snd (insertRandomRows e n w)) = removes w"
  by (simp_all add: insertRandomRows_def rolled_back_def Let_def
      split: option.splits insert_failure.splits)

lemma getRowCount_frame [simp]:
  "files (snd (getRowCount e w)) = files w" "removes (snd (getRowCount e w)) = removes w"
  by (simp_all add: getRowCount_def)

lemma SqliteHelper_ctor_frame [simp]:
  "removes (snd (SqliteHelper_ctor e p w)) = removes w"
  "files (snd (SqliteHelper_ctor e p w))
     = (if db_open e = None then insert (p @ ''_'' @ db_stamp e @ ''.sqlite'') (files w)
        else files w)"
  by (simp_all add: SqliteHelper_ctor_def Let_def split: option.splits)

lemma stage_what:
  "fst (createTable e w) = Inl ex \<Longrightarrow> \<exists>msg. what ex = Some msg"
  "fst (insertRandomRows e n w) = Inl ex \<Longrightarrow> \<exists>msg. what ex = Some msg"
  "fst (getRowCount e w) = Inl ex \<Longrightarrow> \<exists>msg. what ex = Some msg"
  "fst (SqliteHelper_ctor e p w) = Inl ex \<Longrightarrow> \<exists>msg. what ex = Some msg"
  by (auto simp: createTable_def insertRandomRows_def rolled_back_def getRowCount_def
      SqliteHelper_ctor_def Let_def split: option.splits insert_failure.splits if_splits)

lemma run_prepare_frame:
  "removes (snd (run_prepare e m w)) = removes w"
  "files (snd (run_prepare e m w))
     \<subseteq> insert ''logs'' (insert (sqlitePrefix m @ ''_'' @ db_stamp e @ ''.sqlite'') (files w))"
  by (auto simp: run_prepare_def case_prod_beta split: option.splits sum.splits if_splits)

lemma run_prepare_what:
  assumes "run_prepare e m w = (Inl ex, w1)"
  shows "\<exists>msg. what ex = Some msg"
  using assms
  by (auto simp: run_prepare_def case_prod_beta split: option.splits sum.splits
      dest: stage_what)


lemma dumpFile_of_nonempty [simp]: "dumpFile_of e m \<noteq> []"
  by (simp add: dumpFile_of_def)

lemma run_spec:
  assumes t: "\<exists>n. backup_step e n 1024 \<notin> {SQLITE_OK, SQLITE_BUSY, SQLITE_LOCKED}"
  shows "\<exists>b w'. run e m w = Some (b, w')
     \<and> (\<forall>ex w1. run_prepare e m w = (Inl ex, w1) \<longrightarrow>
           \<not> b \<and> removes w' = removes w \<and> files w' = files w1
           \<and> (\<exists>msg. what ex = Some msg
                 \<and> entries w' = entries w1 @ [(ERROR, ''Exception during backup/upload: '' @ msg)]))
     \<and> (\<forall>db w1. run_prepare e m w = (Inr db, w1) \<longrightarrow>
           (\<exists>r w2. backupToFile e (dumpFile_of e m) w1 = Some (r, w2)
              \<and> removes w' = removes w @ [dumpFile_of e m]
              \<and> files w' = (if remove_fails e then files w2 else files w2 - {dumpFile_of e m})
              \<and> files w2 = (if dest_file_created e then insert (dumpFile_of e m) (files w1)
                             else files w1)
              \<and> (\<forall>ex. r = Inl ex \<longrightarrow>
                    \<not> b \<and> (\<exists>msg es. what ex = Some msg
                          \<and> entries w' = es @ [(ERROR, ''Exception during backup/upload: '' @ msg)]))
              \<and> (r = Inr () \<longrightarrow>
                    (\<exists>r' u' w4.
                        uploadFile e (dumpFile_of e m) (ftpDir m)
                          (fst (make_uploader e m
                             (log INFO (''Database binary backup created at: '' @ dumpFile_of e m) w2)))
                          (snd (make_uploader e m
                             (log INFO (''Database binary backup created at: '' @ dumpFile_of e m) w2)))
                          = (r', u', w4)
                      \<and> (\<forall>ex. r' = Inl ex \<longrightarrow>
                            \<not> b \<and> (\<exists>msg es. what ex = Some msg
                               \<and> entries w' = es @ [(ERROR, ''Exception during backup/upload: '' @ msg)]))
                      \<and> (r' = Inr () \<longrightarrow> b)))))"
proof -
  let ?D = "dumpFile_of e m"
  let ?rem = "\<lparr>path_field = ?D, active_field = True\<rparr>"
  obtain r0 w1 where p: "run_prepare e m w = (r0, w1)" by (cases "run_prepare e m w") blast
  have pr: "removes w1 = removes w" using run_prepare_frame(1) [of e m w] p by simp
  show ?thesis
  proof (cases r0)
    case (Inl ex)
    obtain msg where msg: "what ex = Some msg" using run_prepare_what p Inl by blast
    define w' where "w' = log ERROR (''Exception during backup/upload: '' @ msg) w1"
    have run: "run e m w = Some (False, w')"
      using p Inl msg by (simp add: run_def run_try_def w'_def)
    have f: "removes w' = removes w" "files w' = files w1"
      "entries w' = entries w1 @ [(ERROR, ''Exception during backup/upload: '' @ msg)]"
      using pr by (simp_all add: w'_def log_ERROR_entries)
    show ?thesis
      by (intro exI [of _ False] exI [of _ w']) (use run p Inl msg f in simp)
  next
    case (Inr db)
    obtain r w2 where
      b: "backupToFile e ?D w1 = Some (r, w2)"
      and br: "r = Inr () \<or> (\<exists>msg. r = Inl (runtime_error msg))"
      and bf: "files w2 = (if dest_file_created e then insert ?D (files w1) else files w1)"
        "removes w2 = removes w1"
      using backupToFile_spec [OF t, of ?D w1] by blast
    show ?thesis
    proof (cases r)
      case bl: (Inl ex)
      then obtain msg where ex: "ex = runtime_error msg" using br by blast
      define w3 where "w3 = SqliteHelper_dtor db (TempFileRemover_dtor e ?rem w2)"
      define w' where "w' = log ERROR (''Exception during backup/upload: '' @ msg) w3"
      have "run_try e m w = Some (Inl ex, w3)"
        using p Inr b bl by (simp add: run_try_def Let_def w3_def)
      then have run: "run e m w = Some (False, w')"
        using ex by (simp add: run_def w'_def)
      have f3: "removes w' = removes w @ [?D]"
        "files w' = (if remove_fails e then files w2 else files w2 - {?D})"
        using bf pr by (simp_all add: w3_def w'_def)
      have lg: "\<exists>m' es. what ex = Some m'
                  \<and> entries w' = es @ [(ERROR, ''Exception during backup/upload: '' @ m')]"
        using ex by (simp add: w'_def log_ERROR_entries)
      show ?thesis
        by (intro exI [of _ False] exI [of _ w']) (use run p Inr b bl f3 bf lg in simp)
    next
      case brr: (Inr x)
      let ?mu = "make_uploader e m (log INFO (''Database binary backup created at: '' @ ?D) w2)"
      obtain T r' u' w4 where
        u: "uploadFile e ?D (ftpDir m) (fst ?mu) (snd ?mu) = (r', u', w4)"
        and ur: "r' = Inr () \<or> r' = Inl (runtime_error (''Local file does not exist: '' @ ?D))
          \<or> r' = Inl (runtime_error (''Failed to open local file: '' @ ?D))
          \<or> r' = Inl (runtime_error ''Failed to initialize curl'')
          \<or> r' = Inl (runtime_error (''FTP upload failed: '' @ lastError u'))"
        and uf: "files w4 = files (snd ?mu)" "removes w4 = removes (snd ?mu)"
        using uploadFile_trace [of e ?D "ftpDir m" "fst ?mu" "snd ?mu" w] by blast
      have uf': "files w4 = files w2" "removes w4 = removes w" using uf bf pr by simp_all
      show ?thesis
      proof (cases r')
        case ul: (Inl ex)
        then obtain msg where ex: "ex = runtime_error msg" using ur by auto
        define w5 where "w5 = SqliteHelper_dtor db (TempFileRemover_dtor e ?rem (FtpUploader_dtor u' w4))"
        define w' where "w' = log ERROR (''Exception during backup/upload: '' @ msg) w5"
        have "run_try e m w = Some (Inl ex, w5)"
          using p Inr b brr u ul by (simp add: run_try_def Let_def w5_def case_prod_beta)
        then have run: "run e m w = Some (False, w')"
          using ex by (simp add: run_def w'_def)
        have f5: "removes w' = removes w @ [?D]"
          "files w' = (if remove_fails e then files w2 else files w2 - {?D})"
          using uf' by (simp_all add: w5_def w'_def)
        have lg: "\<exists>m' es. what ex = Some m'
                  \<and> entries w' = es @ [(ERROR, ''Exception during backup/upload: '' @ m')]"
          using ex by (simp add: w'_def log_ERROR_entries)
        show ?thesis
          by (intro exI [of _ False] exI [of _ w']) (use run p Inr b brr u ul f5 bf lg in simp)
      next
        case urr: (Inr y)
        define w5 where "w5 = SqliteHelper_dtor db (TempFileRemover_dtor e ?rem
                                (FtpUploader_dtor u' (log INFO ''Upload finished successfully.'' w4)))"
        have "run_try e m w = Some (Inr (), w5)"
          using p Inr b brr u urr by (simp add: run_try_def Let_def w5_def case_prod_beta)
        then have run: "run e m w = Some (True, w5)"
          by (simp add: run_def)
        have f5: "removes w5 = removes w @ [?D]"
          "files w5 = (if remove_fails e then files w2 else files w2 - {?D})"
          using uf' by (simp_all add: w5_def)
        show ?thesis
          by (intro exI [of _ True] exI [of _ w5]) (use run p Inr b brr u urr f5 bf in simp)
      qed
    qed
  qed
qed

subsection \<open>Outcomes of a run\<close>

lemma example_prepare:
  assumes "create_logs_dir e = None" and "db_open e = None" and "create_table_exec e = None"
    and "insert_rows e = None" and "count_prepare_ok e"
  shows "\<exists>db w1. run_prepare e m w = (Inr db, w1)"
  using assms
  by (simp add: run_prepare_def SqliteHelper_ctor_def createTable_def insertRandomRows_def
      getRowCount_def Let_def)

lemma deliver_no_throw:
  "(\<And>a. \<not> isl (fst (cb a))) \<Longrightarrow> \<not> fst (deliver (Some cb) en es w)"
proof (induction es arbitrary: w)
  case Nil
  show ?case by simp
next
  case (Cons ev es)
  show ?case
  proof (cases ev)
    case (ServerData c)
    then show ?thesis using Cons by simp
  next
    case (Progress b)
    then show ?thesis
      using Cons.IH [OF Cons.prems] Cons.prems [of b]
      by (cases en) (simp_all add: case_prod_beta curlProgress_fst)
  qed
qed

lemma progress_lambda_returns: "\<not> isl (fst (progress_lambda e a))"
  by (cases a) (simp add: progress_lambda_def)

lemma perform_progress_lambda:
  "fst (curl_easy_perform e (Some (progress_lambda e')) k opts w) = net_result e k"
proof -
  have "\<not> fst (deliver (if opt_xferinfo opts then Some (progress_lambda e') else None)
                 (opt_noprogress opts = 0) (curl_events e k) w)"
  proof (cases "opt_xferinfo opts")
    case True
    then show ?thesis using deliver_no_throw [of "progress_lambda e'"] progress_lambda_returns
      by simp
  next
    case False
    have "\<not> fst (deliver None en es w)" for en es w
    proof (induction es arbitrary: w)
      case Nil
      show ?case by simp
    next
      case (Cons ev es)
      then show ?case by (cases ev; cases en) (simp_all add: case_prod_beta curlProgress_fst)
    qed
    then show ?thesis using False by simp
  qed
  then show ?thesis by (simp add: curl_easy_perform_def case_prod_beta Let_def)
qed

text \<open>
  Claim C6. Whenever the snapshot primitive comes to a final status, \<open>run\<close> returns a
  boolean and nothing else. It is true exactly when the preparation, the snapshot and the
  upload all return normally. When any of them throws, it is false and the last line of
  the log is the detail of that exception at error severity, whatever the log level.
\<close>

theorem C6_run_boolean_outcome:
  assumes "\<exists>n. backup_step e n 1024 \<notin> {SQLITE_OK, SQLITE_BUSY, SQLITE_LOCKED}"
  shows "\<exists>b w'. run e m w = Some (b, w')
     \<and> (b = (\<exists>db w1 w2 u' w4. run_prepare e m w = (Inr db, w1)
             \<and> backupToFile e (dumpFile_of e m) w1 = Some (Inr (), w2)
             \<and> uploadFile e (dumpFile_of e m) (ftpDir m)
                  (fst (make_uploader e m
                     (log INFO (''Database binary backup created at: '' @ dumpFile_of e m) w2)))
                  (snd (make_uploader e m
                     (log INFO (''Database binary backup created at: '' @ dumpFile_of e m) w2)))
                  = (Inr (), u', w4)))
     \<and> (\<forall>ex w1. run_prepare e m w = (Inl ex, w1) \<longrightarrow>
           \<not> b \<and> (\<exists>msg es. what ex = Some msg
                 \<and> entries w' = es @ [(ERROR, ''Exception during backup/upload: '' @ msg)]))
     \<and> (\<forall>db w1. run_prepare e m w = (Inr db, w1) \<longrightarrow>
           (\<exists>r w2. backupToFile e (dumpFile_of e m) w1 = Some (r, w2)
              \<and> (\<forall>ex. r = Inl ex \<longrightarrow>
                    \<not> b \<and> (\<exists>msg es. what ex = Some msg
                          \<and> entries w' = es @ [(ERROR, ''Exception during backup/upload: '' @ msg)]))
              \<and> (r = Inr () \<longrightarrow>
                    (\<exists>r' u' w4.
                        uploadFile e (dumpFile_of e m) (ftpDir m)
                          (fst (make_uploader e m
                             (log INFO (''Database binary backup created at: '' @ dumpFile_of e m) w2)))
                          (snd (make_uploader e m
                             (log INFO (''Database binary backup created at: '' @ dumpFile_of e m) w2)))
                          = (r', u', w4)
                      \<and> (\<forall>ex. r' = Inl ex \<longrightarrow>
                            \<not> b \<and> (\<exists>msg es. what ex = Some msg
                               \<and> entries w' = es @ [(ERROR, ''Exception during backup/upload: '' @ msg)]))
                      \<and> (r' = Inr () \<longrightarrow> b)))))"
proof -
  let ?D = "dumpFile_of e m"
  let ?mu = "\<lambda>w2. make_uploader e m (log INFO (''Database binary backup created at: '' @ ?D) w2)"
  obtain b w' where
    run: "run e m w = Some (b, w')"
    and pf: "\<forall>ex w1. run_prepare e m w = (Inl ex, w1) \<longrightarrow>
           \<not> b \<and> removes w' = removes w \<and> files w' = files w1
           \<and> (\<exists>msg. what ex = Some msg
                 \<and> entries w' = entries w1 @ [(ERROR, ''Exception during backup/upload: '' @ msg)])"
    and ps: "\<forall>db w1. run_prepare e m w = (Inr db, w1) \<longrightarrow>
           (\<exists>r w2. backupToFile e ?D w1 = Some (r, w2)
              \<and> removes w' = removes w @ [?D]
              \<and> files w' = (if remove_fails e then files w2 else files w2 - {?D})
              \<and> files w2 = (if dest_file_created e then insert ?D (files w1) else files w1)
              \<and> (\<forall>ex. r = Inl ex \<longrightarrow>
                    \<not> b \<and> (\<exists>msg es. what ex = Some msg
                          \<and> entries w' = es @ [(ERROR, ''Exception during backup/upload: '' @ msg)]))
              \<and> (r = Inr () \<longrightarrow>
                    (\<exists>r' u' w4.
                        uploadFile e ?D (ftpDir m) (fst (?mu w2)) (snd (?mu w2)) = (r', u', w4)
                      \<and> (\<forall>ex. r' = Inl ex \<longrightarrow>
                            \<not> b \<and> (\<exists>msg es. what ex = Some msg
                               \<and> entries w' = es @ [(ERROR, ''Exception during backup/upload: '' @ msg)]))
                      \<and> (r' = Inr () \<longrightarrow> b))))"
    using run_spec [OF assms, of m w] by blast
  have pf': "\<forall>ex w1. run_prepare e m w = (Inl ex, w1) \<longrightarrow>
           \<not> b \<and> (\<exists>msg es. what ex = Some msg
                 \<and> entries w' = es @ [(ERROR, ''Exception during backup/upload: '' @ msg)])"
    using pf by blast
  have ps': "\<forall>db w1. run_prepare e m w = (Inr db, w1) \<longrightarrow>
           (\<exists>r w2. backupToFile e ?D w1 = Some (r, w2)
              \<and> (\<forall>ex. r = Inl ex \<longrightarrow>
                    \<not> b \<and> (\<exists>msg es. what ex = Some msg
                          \<and> entries w' = es @ [(ERROR, ''Exception during backup/upload: '' @ msg)]))
              \<and> (r = Inr () \<longrightarrow>
                    (\<exists>r' u' w4.
                        uploadFile e ?D (ftpDir m) (fst (?mu w2)) (snd (?mu w2)) = (r', u', w4)
                      \<and> (\<forall>ex. r' = Inl ex \<longrightarrow>
                            \<not> b \<and> (\<exists>msg es. what ex = Some msg
                               \<and> entries w' = es @ [(ERROR, ''Exception during backup/upload: '' @ msg)]))
                      \<and> (r' = Inr () \<longrightarrow> b))))"
    using ps by blast
  have iff: "b = (\<exists>db w1 w2 u' w4. run_prepare e m w = (Inr db, w1)
             \<and> backupToFile e ?D w1 = Some (Inr (), w2)
             \<and> uploadFile e ?D (ftpDir m) (fst (?mu w2)) (snd (?mu w2)) = (Inr (), u', w4))"
  proof
    assume b
    obtain r0 w1 where p: "run_prepare e m w = (r0, w1)" by (cases "run_prepare e m w") blast
    have "\<exists>db. r0 = Inr db" using pf' p \<open>b\<close> by (cases r0) auto
    then obtain db where r0: "r0 = Inr db" by blast
    obtain r w2 where
      bk: "backupToFile e ?D w1 = Some (r, w2)"
      and bl: "\<forall>ex. r = Inl ex \<longrightarrow> \<not> b"
      and br: "r = Inr () \<longrightarrow>
                    (\<exists>r' u' w4.
                        uploadFile e ?D (ftpDir m) (fst (?mu w2)) (snd (?mu w2)) = (r', u', w4)
                      \<and> (\<forall>ex. r' = Inl ex \<longrightarrow> \<not> b))"
      using ps' p r0 by blast
    have r: "r = Inr ()" using bl \<open>b\<close> by (cases r) auto
    obtain r' u' w4 where
      up: "uploadFile e ?D (ftpDir m) (fst (?mu w2)) (snd (?mu w2)) = (r', u', w4)"
      and ul: "\<forall>ex. r' = Inl ex \<longrightarrow> \<not> b"
      using br r by blast
    have r': "r' = Inr ()" using ul \<open>b\<close> by (cases r') auto
    show "\<exists>db w1 w2 u' w4. run_prepare e m w = (Inr db, w1)
             \<and> backupToFile e ?D w1 = Some (Inr (), w2)
             \<and> uploadFile e ?D (ftpDir m) (fst (?mu w2)) (snd (?mu w2)) = (Inr (), u', w4)"
      using p r0 bk r up r' by blast
  next
    assume "\<exists>db w1 w2 u' w4. run_prepare e m w = (Inr db, w1)
             \<and> backupToFile e ?D w1 = Some (Inr (), w2)
             \<and> uploadFile e ?D (ftpDir m) (fst (?mu w2)) (snd (?mu w2)) = (Inr (), u', w4)"
    then obtain db w1 w2 u' w4 where
      p: "run_prepare e m w = (Inr db, w1)"
      and bk: "backupToFile e ?D w1 = Some (Inr (), w2)"
      and up: "uploadFile e ?D (ftpDir m) (fst (?mu w2)) (snd (?mu w2)) = (Inr (), u', w4)"
      by blast
    obtain r w2' where
      bk': "backupToFile e ?D w1 = Some (r, w2')"
      and br: "r = Inr () \<longrightarrow>
                    (\<exists>r' u' w4.
                        uploadFile e ?D (ftpDir m) (fst (?mu w2')) (snd (?mu w2')) = (r', u', w4)
                      \<and> (r' = Inr () \<longrightarrow> b))"
      using ps' p by blast
    have e2: "r = Inr ()" "w2' = w2" using bk bk' by simp_all
    show b using br e2 up by auto
  qed
  show ?thesis
    by (intro exI [of _ b] exI [of _ w'] conjI) (rule run, rule iff, rule pf', rule ps')
qed

text \<open>
  Claim C3, as the code has it. Whenever the snapshot primitive comes to a final status,
  \<open>run\<close> returns. A run that reaches the snapshot stage calls
  \<open>std::filesystem::remove\<close> on the artifact path exactly once, whatever the snapshot and
  the upload do, and unless that call raises the path does not exist afterwards; the
  stages leave no other new file. A run that fails before the snapshot stage removes
  nothing and touches no artifact.
\<close>

theorem C3_artifact_removed_unless_removal_fails:
  assumes "\<exists>n. backup_step e n 1024 \<notin> {SQLITE_OK, SQLITE_BUSY, SQLITE_LOCKED}"
  shows "\<exists>b w'. run e m w = Some (b, w')
     \<and> (\<forall>db w1. run_prepare e m w = (Inr db, w1) \<longrightarrow>
           removes w' = removes w @ [dumpFile_of e m]
           \<and> (\<not> remove_fails e \<longrightarrow> dumpFile_of e m \<notin> files w')
           \<and> files w' \<subseteq> insert (dumpFile_of e m) (files w1))
     \<and> (\<forall>ex w1. run_prepare e m w = (Inl ex, w1) \<longrightarrow>
           removes w' = removes w \<and> files w' = files w1)
     \<and> files (snd (run_prepare e m w))
         \<subseteq> insert ''logs'' (insert (sqlitePrefix m @ ''_'' @ db_stamp e @ ''.sqlite'') (files w))"
proof -
  let ?D = "dumpFile_of e m"
  obtain b w' where
    run: "run e m w = Some (b, w')"
    and pf: "\<forall>ex w1. run_prepare e m w = (Inl ex, w1) \<longrightarrow>
           \<not> b \<and> removes w' = removes w \<and> files w' = files w1
           \<and> (\<exists>msg. what ex = Some msg
                 \<and> entries w' = entries w1 @ [(ERROR, ''Exception during backup/upload: '' @ msg)])"
    and ps: "\<forall>db w1. run_prepare e m w = (Inr db, w1) \<longrightarrow>
           (\<exists>r w2. backupToFile e ?D w1 = Some (r, w2)
              \<and> removes w' = removes w @ [?D]
              \<and> files w' = (if remove_fails e then files w2 else files w2 - {?D})
              \<and> files w2 = (if dest_file_created e then insert ?D (files w1) else files w1)
              \<and> (\<forall>ex. r = Inl ex \<longrightarrow>
                    \<not> b \<and> (\<exists>msg es. what ex = Some msg
                          \<and> entries w' = es @ [(ERROR, ''Exception during backup/upload: '' @ msg)]))
              \<and> (r = Inr () \<longrightarrow>
                    (\<exists>r' u' w4.
                        uploadFile e ?D (ftpDir m) (fst (make_uploader e m
                             (log INFO (''Database binary backup created at: '' @ ?D) w2)))
                          (snd (make_uploader e m
                             (log INFO (''Database binary backup created at: '' @ ?D) w2))) = (r', u', w4)
                      \<and> (\<forall>ex. r' = Inl ex \<longrightarrow>
                            \<not> b \<and> (\<exists>msg es. what ex = Some msg
                               \<and> entries w' = es @ [(ERROR, ''Exception during backup/upload: '' @ msg)]))
                      \<and> (r' = Inr () \<longrightarrow> b))))"
    using run_spec [OF assms, of m w] by blast
  have a: "\<forall>db w1. run_prepare e m w = (Inr db, w1) \<longrightarrow>
           removes w' = removes w @ [?D]
           \<and> (\<not> remove_fails e \<longrightarrow> ?D \<notin> files w')
           \<and> files w' \<subseteq> insert ?D (files w1)"
  proof (intro allI impI)
    fix db w1 assume p: "run_prepare e m w = (Inr db, w1)"
    from ps [rule_format, OF p]
    show "removes w' = removes w @ [?D]
           \<and> (\<not> remove_fails e \<longrightarrow> ?D \<notin> files w')
           \<and> files w' \<subseteq> insert ?D (files w1)"
      by (auto split: if_splits)
  qed
  have c: "\<forall>ex w1. run_prepare e m w = (Inl ex, w1) \<longrightarrow>
           removes w' = removes w \<and> files w' = files w1"
    using pf by blast
  show ?thesis
    by (intro exI [of _ b] exI [of _ w'] conjI)
      (rule run, rule a, rule c, rule run_prepare_frame(2))
qed


text \<open>When \<open>std::filesystem::remove\<close> raises, the destructor swallows the error and
  the artifact is still on disk after \<open>run\<close> has returned.\<close>

theorem C3_artifact_left_counterexample:
  "run (example_env\<lparr>remove_fails := True\<rparr>) example_manager example_world \<noteq> None
   \<and> ''db_backup_2024-01-01_00-00-01.sqlite''
       \<in> files (snd (the (run (example_env\<lparr>remove_fails := True\<rparr>) example_manager example_world)))"
proof -
  let ?e = "example_env\<lparr>remove_fails := True\<rparr>"
  have t: "\<exists>n. backup_step ?e n 1024 \<notin> {SQLITE_OK, SQLITE_BUSY, SQLITE_LOCKED}"
    by (rule exI [of _ 1])
      (simp add: example_env_def SQLITE_OK_def SQLITE_BUSY_def SQLITE_LOCKED_def)
  obtain db w1 where p: "run_prepare ?e example_manager example_world = (Inr db, w1)"
    using example_prepare [of ?e example_manager example_world]
    by (auto simp: example_env_def)
  have D: "dumpFile_of ?e example_manager = ''db_backup_2024-01-01_00-00-01.sqlite''"
    by (simp add: dumpFile_of_def example_env_def example_manager_def)
  obtain b w' where
    run: "run ?e example_manager example_world = Some (b, w')"
    and ps: "\<forall>db w1. run_prepare ?e example_manager example_world = (Inr db, w1) \<longrightarrow>
           (\<exists>r w2. backupToFile ?e (dumpFile_of ?e example_manager) w1 = Some (r, w2)
              \<and> removes w' = removes example_world @ [dumpFile_of ?e example_manager]
              \<and> files w' = (if remove_fails ?e then files w2
                             else files w2 - {dumpFile_of ?e example_manager})
              \<and> files w2 = (if dest_file_created ?e
                             then insert (dumpFile_of ?e example_manager) (files w1)
                             else files w1))"
    using run_spec [OF t, of example_manager example_world] by (elim exE conjE) blast
  have "dumpFile_of ?e example_manager \<in> files w'"
    using ps [rule_format, OF p] by (auto simp: example_env_def)
  then show ?thesis using run D by simp
qed

text \<open>The example run: one removal, and the artifact is gone.\<close>

theorem C3_artifact_removed_unless_removal_fails_witness:
  "(\<exists>n. backup_step example_env n 1024 \<notin> {SQLITE_OK, SQLITE_BUSY, SQLITE_LOCKED})
   \<and> \<not> remove_fails example_env
   \<and> run example_env example_manager example_world \<noteq> None
   \<and> ''db_backup_2024-01-01_00-00-01.sqlite''
       \<notin> files (snd (the (run example_env example_manager example_world)))
   \<and> removes (snd (the (run example_env example_manager example_world)))
       = [''db_backup_2024-01-01_00-00-01.sqlite'']"
proof -
  have t: "\<exists>n. backup_step example_env n 1024 \<notin> {SQLITE_OK, SQLITE_BUSY, SQLITE_LOCKED}"
    by (rule exI [of _ 1])
      (simp add: example_env_def SQLITE_OK_def SQLITE_BUSY_def SQLITE_LOCKED_def)
  have nf: "\<not> remove_fails example_env" by (simp add: example_env_def)
  obtain db w1 where p: "run_prepare example_env example_manager example_world = (Inr db, w1)"
    using example_prepare [of example_env example_manager example_world]
    by (auto simp: example_env_def)
  have D: "dumpFile_of example_env example_manager = ''db_backup_2024-01-01_00-00-01.sqlite''"
    by (simp add: dumpFile_of_def example_env_def example_manager_def)
  obtain b w' where
    run: "run example_env example_manager example_world = Some (b, w')"
    and ps: "\<forall>db w1. run_prepare example_env example_manager example_world = (Inr db, w1) \<longrightarrow>
           removes w' = removes example_world @ [dumpFile_of example_env example_manager]
           \<and> (\<not> remove_fails example_env \<longrightarrow> dumpFile_of example_env example_manager \<notin> files w')
           \<and> files w' \<subseteq> insert (dumpFile_of example_env example_manager) (files w1)"
    using C3_artifact_removed_unless_removal_fails [OF t, of example_manager example_world]
    by (elim exE conjE) blast
  have "removes w' = [dumpFile_of example_env example_manager]"
    "dumpFile_of example_env example_manager \<notin> files w'"
    using ps [rule_format, OF p] nf by (simp_all add: example_world_def)
  then show ?thesis using t nf run D by simp
qed


text \<open>Three refused attempts: \<open>run\<close> returns false and the last log line carries the
  transport error.\<close>

theorem C6_run_boolean_outcome_witness:
  "(\<exists>n. backup_step (example_env\<lparr>net_result := \<lambda>k. 7\<rparr>) n 1024
          \<notin> {SQLITE_OK, SQLITE_BUSY, SQLITE_LOCKED})
   \<and> run (example_env\<lparr>net_result := \<lambda>k. 7\<rparr>) example_manager example_world \<noteq> None
   \<and> \<not> fst (the (run (example_env\<lparr>net_result := \<lambda>k. 7\<rparr>) example_manager example_world))
   \<and> (\<exists>es. entries (snd (the (run (example_env\<lparr>net_result := \<lambda>k. 7\<rparr>)
                                  example_manager example_world)))
          = es @ [(ERROR, ''Exception during backup/upload: FTP upload failed: Could not connect to server'')])"
proof -
  let ?e = "example_env\<lparr>net_result := \<lambda>k. 7\<rparr>"
  let ?D = "dumpFile_of ?e example_manager"
  have t: "\<exists>n. backup_step ?e n 1024 \<notin> {SQLITE_OK, SQLITE_BUSY, SQLITE_LOCKED}"
    by (rule exI [of _ 1])
      (simp add: example_env_def SQLITE_OK_def SQLITE_BUSY_def SQLITE_LOCKED_def)
  obtain db w1 where p: "run_prepare ?e example_manager example_world = (Inr db, w1)"
    using example_prepare [of ?e example_manager example_world]
    by (auto simp: example_env_def)
  obtain b w' where
    run: "run ?e example_manager example_world = Some (b, w')"
    and ps: "\<forall>db w1. run_prepare ?e example_manager example_world = (Inr db, w1) \<longrightarrow>
           (\<exists>r w2. backupToFile ?e ?D w1 = Some (r, w2)
              \<and> (\<forall>ex. r = Inl ex \<longrightarrow>
                    \<not> b \<and> (\<exists>msg es. what ex = Some msg
                          \<and> entries w' = es @ [(ERROR, ''Exception during backup/upload: '' @ msg)]))
              \<and> (r = Inr () \<longrightarrow>
                    (\<exists>r' u' w4.
                        uploadFile ?e ?D (ftpDir example_manager)
                          (fst (make_uploader ?e example_manager
                             (log INFO (''Database binary backup created at: '' @ ?D) w2)))
                          (snd (make_uploader ?e example_manager
                             (log INFO (''Database binary backup created at: '' @ ?D) w2)))
                          = (r', u', w4)
                      \<and> (\<forall>ex. r' = Inl ex \<longrightarrow>
                            \<not> b \<and> (\<exists>msg es. what ex = Some msg
                               \<and> entries w' = es @ [(ERROR, ''Exception during backup/upload: '' @ msg)]))
                      \<and> (r' = Inr () \<longrightarrow> b))))"
    using C6_run_boolean_outcome [OF t, of example_manager example_world]
    by (elim exE conjE) (rule that, assumption+)
  obtain r w2 where
    bk: "backupToFile ?e ?D w1 = Some (r, w2)"
    and upl: "r = Inr () \<longrightarrow>
                    (\<exists>r' u' w4.
                        uploadFile ?e ?D (ftpDir example_manager)
                          (fst (make_uploader ?e example_manager
                             (log INFO (''Database binary backup created at: '' @ ?D) w2)))
                          (snd (make_uploader ?e example_manager
                             (log INFO (''Database binary backup created at: '' @ ?D) w2)))
                          = (r', u', w4)
                      \<and> (\<forall>ex. r' = Inl ex \<longrightarrow>
                            \<not> b \<and> (\<exists>msg es. what ex = Some msg
                               \<and> entries w' = es @ [(ERROR, ''Exception during backup/upload: '' @ msg)])))"
    using ps [rule_format, OF p] by blast
  have N: "(LEAST n. backup_step ?e n 1024 \<notin> {SQLITE_OK, SQLITE_BUSY, SQLITE_LOCKED}) = 1"
    by (rule Least_equality)
      (auto simp: example_env_def SQLITE_OK_def SQLITE_BUSY_def SQLITE_LOCKED_def
        split: if_splits)
  obtain r0 w0 where
    bk0: "backupToFile ?e ?D w1 = Some (r0, w0)"
    and fl: "files w0 = (if dest_file_created ?e then insert ?D (files w1) else files w1)"
    and ok: "dest_open ?e = None \<and> backup_init ?e = None \<longrightarrow>
             (r0 = Inr ()) = (backup_step ?e 1 1024 = SQLITE_DONE
                              \<and> backup_finish ?e SQLITE_DONE = SQLITE_OK)"
    using backupToFile_spec [OF t, of ?D w1] unfolding N by blast
  have r: "r = Inr ()" and fl2: "?D \<in> files w2"
    using bk bk0 fl ok by (simp_all add: example_env_def SQLITE_DONE_def SQLITE_OK_def)
  let ?mu = "make_uploader ?e example_manager
               (log INFO (''Database binary backup created at: '' @ ?D) w2)"
  obtain r' u' w4 where
    up: "uploadFile ?e ?D (ftpDir example_manager) (fst ?mu) (snd ?mu) = (r', u', w4)"
    and ul: "\<forall>ex. r' = Inl ex \<longrightarrow>
                \<not> b \<and> (\<exists>msg es. what ex = Some msg
                   \<and> entries w' = es @ [(ERROR, ''Exception during backup/upload: '' @ msg)])"
    using upl r by blast
  have cb: "progressCb (fst ?mu) = Some (progress_lambda ?e)"
    and mr: "maxRetries (fst ?mu) = 3"
    by (simp_all add: make_uploader_def FtpUploader_ctor_def Let_def setProgressCallback_def
        setSslVerify_def setTimeout_def setRetries_def enableVerbose_def example_manager_def)
  have h1: "?D \<in> files (snd ?mu)" using fl2 by simp
  have h2: "1 \<le> maxRetries (fst ?mu)" using mr by simp
  have h3: "\<forall>k. 1 \<le> k \<and> k \<le> maxRetries (fst ?mu) \<longrightarrow> fopen_ok ?e k \<and> easy_init_ok ?e k"
    by (simp add: example_env_def)
  define st where "st = (\<lambda>k. fst (curl_easy_perform ?e (progressCb (fst ?mu)) k
                 (setopts ?e (fst ?mu)
                    (buildUrl (fst ?mu) (ftpDir example_manager) (path_filename ?D)) k)
                 (snd ?mu)))"
  have st: "st k = 7" for k
    unfolding st_def cb perform_progress_lambda by (simp add: example_env_def)
  obtain n u'' w'' where
    "uploadFile ?e ?D (ftpDir example_manager) (fst ?mu) (snd ?mu) =
          ((if st n = CURLE_OK then Inr ()
            else Inl (runtime_error (''FTP upload failed: '' @ curl_easy_strerror ?e (st n)))), u'', w'')"
    using uploadFile_spec [OF h1 h2 h3 st_def] by blast
  then have r': "r' = Inl (runtime_error ''FTP upload failed: Could not connect to server'')"
    using up by (simp add: st CURLE_OK_def example_env_def)
  have nb: "\<not> b"
    and lg: "\<exists>es. entries w' = es @ [(ERROR,
               ''Exception during backup/upload: FTP upload failed: Could not connect to server'')]"
    using ul r' by auto
  show ?thesis using t run nb lg by simp
qed

end
